theory Spec2Isabelle
  imports Complex_Main
begin

section \<open>Tensors, errors and the numeric operations the detector calls\<close>

text \<open>
  The detector of \<^verbatim>\<open>detect.py\<close> post-processes the output of a YOLO network. Its four
  functions \<^verbatim>\<open>yolo_boxes_to_corners\<close>, \<^verbatim>\<open>yolo_filter_boxes\<close>,
  \<^verbatim>\<open>yolo_non_max_suppression\<close> and \<^verbatim>\<open>yolo_eval\<close> are embedded below, line by line.

  A tensor of shape \<open>(d\<^sub>1, \<dots>, d\<^sub>k, n)\<close> is a list of its rows along the last axis, the
  leading axes flattened in row-major order (the order in which \<^verbatim>\<open>tf.boolean_mask\<close>
  flattens them); a tensor of shape \<open>(d\<^sub>1, \<dots>, d\<^sub>k)\<close> is the list of its entries in the same
  order. Two tensors have the same leading shape when they have the same number of rows;
  the four tensors of a frame share theirs, and broadcasting along a leading axis is outside
  the model: an elementwise operation raises when the row counts differ.
  The entries are \<^verbatim>\<open>float32\<close> in the source; here they range over an arbitrary linearly
  ordered field, so rounding, infinities and NaN are outside the model.

  Every exception that an operation of the numeric library raises is a value \<open>Inl e\<close>;
  the source has no \<^verbatim>\<open>try\<close>, so each such value leaves the enclosing function at once.
\<close>

datatype error =
  InvalidArgumentError string
  | OtherError string

definition incompatible_shapes :: error where
  "incompatible_shapes = InvalidArgumentError ''Incompatible shapes''"

text \<open>Collecting the rows of a tensor computed row by row: the first error is the one raised.\<close>

fun collect :: "(error + 'b) list \<Rightarrow> error + 'b list" where
  "collect [] = Inr []"
| "collect (Inl e # rs) = Inl e"
| "collect (Inr v # rs) = (case collect rs of Inl e \<Rightarrow> Inl e | Inr vs \<Rightarrow> Inr (v # vs))"

text \<open>
  An elementwise binary operator with broadcasting along the last axis: two rows combine
  when they have the same width or one of them has width 1.
\<close>

definition broadcast_row :: "('a \<Rightarrow> 'a \<Rightarrow> 'a) \<Rightarrow> 'a list \<Rightarrow> 'a list \<Rightarrow> error + 'a list" where
  "broadcast_row f xs ys =
     (if length xs = length ys then Inr (map2 f xs ys)
      else if length xs = 1 then Inr (map (f (hd xs)) ys)
      else if length ys = 1 then Inr (map (\<lambda>x. f x (hd ys)) xs)
      else Inl incompatible_shapes)"

definition broadcast_op ::
  "('a \<Rightarrow> 'a \<Rightarrow> 'a) \<Rightarrow> 'a list list \<Rightarrow> 'a list list \<Rightarrow> error + 'a list list" where
  "broadcast_op f a b =
     (if length a = length b then collect (map2 (broadcast_row f) a b)
      else Inl incompatible_shapes)"

text \<open>\<^verbatim>\<open>t / 2.\<close>: division of every entry by a scalar.\<close>

definition div_scalar :: "'a::linordered_field list list \<Rightarrow> 'a \<Rightarrow> 'a list list" where
  "div_scalar t c = map (map (\<lambda>x. x / c)) t"

text \<open>\<^verbatim>\<open>t[..., i:j]\<close>: a slice of the last axis; Python clips a slice to the row.\<close>

definition slice_last :: "nat \<Rightarrow> nat \<Rightarrow> 'a list list \<Rightarrow> 'a list list" where
  "slice_last i j t = map (\<lambda>r. take (j - i) (drop i r)) t"

text \<open>
  \<^verbatim>\<open>tf.keras.backend.concatenate\<close> with its default axis \<open>-1\<close>: the tensors must agree
  in their leading shape, and row \<open>k\<close> of the result is the rows \<open>k\<close> of the arguments
  one after the other.
\<close>

fun concatenate :: "'a list list list \<Rightarrow> error + 'a list list" where
  "concatenate [] = Inl (InvalidArgumentError ''concatenate of no tensor'')"
| "concatenate [t] = Inr t"
| "concatenate (t # ts) =
     (case concatenate ts of
        Inl e \<Rightarrow> Inl e
      | Inr u \<Rightarrow> if length t = length u then Inr (map2 (@) t u) else Inl incompatible_shapes)"

text \<open>
  \<^verbatim>\<open>tf.math.argmax(t, axis=-1)\<close>: the index of the largest entry of each row, the
  smallest such index when the largest entry occurs more than once; an empty row raises.
\<close>

fun argmax_from :: "'a::linorder list \<Rightarrow> nat \<Rightarrow> 'a \<Rightarrow> nat \<Rightarrow> nat" where
  "argmax_from [] i best bi = bi"
| "argmax_from (x # xs) i best bi =
     (if best < x then argmax_from xs (Suc i) x i else argmax_from xs (Suc i) best bi)"

fun argmax_row :: "'a::linorder list \<Rightarrow> error + nat" where
  "argmax_row [] = Inl (InvalidArgumentError ''Reduction axis -1 is empty'')"
| "argmax_row (x # xs) = Inr (argmax_from xs 1 x 0)"

definition argmax_last :: "'a::linorder list list \<Rightarrow> error + nat list" where
  "argmax_last t = collect (map argmax_row t)"

text \<open>
  \<^verbatim>\<open>tf.math.reduce_max(t, axis=-1)\<close>: the largest entry of each row. On an empty row
  the library yields the float \<open>-\<infinity>\<close>, which the field does not have; the model raises
  there. \<^verbatim>\<open>yolo_filter_boxes\<close> never reaches that branch: \<^verbatim>\<open>tf.math.argmax\<close> runs one
  line earlier on the same tensor and has raised already.
\<close>

fun reduce_max_row :: "'a::linorder list \<Rightarrow> error + 'a" where
  "reduce_max_row [] = Inl (InvalidArgumentError ''reduce_max of an empty axis'')"
| "reduce_max_row (x # xs) = Inr (fold max xs x)"

definition reduce_max_last :: "'a::linorder list list \<Rightarrow> error + 'a list" where
  "reduce_max_last t = collect (map reduce_max_row t)"

text \<open>
  \<^verbatim>\<open>tf.boolean_mask(t, mask)\<close>: the mask has the leading shape of \<open>t\<close>, or the call
  raises; the result lists, in order, the rows of \<open>t\<close> at which the mask is true.
\<close>

definition boolean_mask :: "'b list \<Rightarrow> bool list \<Rightarrow> error + 'b list" where
  "boolean_mask t msk =
     (if length t = length msk then Inr (map fst (filter snd (zip t msk)))
      else Inl (InvalidArgumentError ''Shapes of tensor and mask are incompatible''))"

text \<open>\<^verbatim>\<open>tf.gather(params, indices)\<close> along axis 0; an index out of range raises.\<close>

definition gather :: "'b list \<Rightarrow> nat list \<Rightarrow> error + 'b list" where
  "gather params indices =
     collect (map (\<lambda>i. if i < length params then Inr (params ! i)
                        else Inl (InvalidArgumentError ''indices out of range'')) indices)"

subsection \<open>Non-max suppression of the numeric library\<close>

text \<open>
  Intersection over union of the boxes in rows \<open>i\<close> and \<open>j\<close>, each given by two
  diagonally opposite corners \<open>[y\<^sub>1, x\<^sub>1, y\<^sub>2, x\<^sub>2]\<close>; a box with no area overlaps
  nothing. The rows are read only behind the checks of \<open>non_max_suppression\<close> below, so
  every row has its four entries and both indices are in range.
\<close>

definition iou :: "'a::linordered_field list list \<Rightarrow> nat \<Rightarrow> nat \<Rightarrow> 'a" where
  "iou boxes i j =
     (let ymin_i = min (boxes ! i ! 0) (boxes ! i ! 2);
          xmin_i = min (boxes ! i ! 1) (boxes ! i ! 3);
          ymax_i = max (boxes ! i ! 0) (boxes ! i ! 2);
          xmax_i = max (boxes ! i ! 1) (boxes ! i ! 3);
          ymin_j = min (boxes ! j ! 0) (boxes ! j ! 2);
          xmin_j = min (boxes ! j ! 1) (boxes ! j ! 3);
          ymax_j = max (boxes ! j ! 0) (boxes ! j ! 2);
          xmax_j = max (boxes ! j ! 1) (boxes ! j ! 3);
          area_i = (ymax_i - ymin_i) * (xmax_i - xmin_i);
          area_j = (ymax_j - ymin_j) * (xmax_j - xmin_j)
      in if area_i \<le> 0 \<or> area_j \<le> 0 then 0
         else
           let intersection_area =
                 max (min ymax_i ymax_j - max ymin_i ymin_j) 0 *
                 max (min xmax_i xmax_j - max xmin_i xmin_j) 0
           in intersection_area / (area_i + area_j - intersection_area))"

text \<open>
  The candidates in the order in which the greedy selection visits them: by descending
  score, a smaller index first among equal scores.
\<close>

definition by_descending_score :: "'a::linordered_field list \<Rightarrow> nat list" where
  "by_descending_score scores = sort_key (\<lambda>i. - (scores ! i)) [0..<length scores]"

text \<open>
  The greedy selection: a candidate is dropped when its overlap with a box selected
  before it exceeds the threshold, and kept otherwise; the selection stops once
  \<open>output_size\<close> boxes are selected.
\<close>

fun greedy_select :: "'a::linordered_field list list \<Rightarrow> 'a \<Rightarrow> nat \<Rightarrow> nat list \<Rightarrow> nat list \<Rightarrow> nat list" where
  "greedy_select boxes thr output_size [] selected = selected"
| "greedy_select boxes thr output_size (c # cs) selected =
     (if output_size \<le> length selected then selected
      else if list_ex (\<lambda>s. thr < iou boxes c s) selected
        then greedy_select boxes thr output_size cs selected
        else greedy_select boxes thr output_size cs (selected @ [c]))"

text \<open>
  Modelled from the spec: \<^verbatim>\<open>tf.image.non_max_suppression\<close> is an operation of the
  numeric library and its code is not part of \<^verbatim>\<open>detect.py\<close>. The spec calls it
  ``greedy overlap-based suppression''; the model is that selection, behind the argument
  checks of the library: the threshold lies in \<open>[0, 1]\<close>, the boxes have four
  coordinates each, there is one score for each box, and the output size is not negative.
  The result is the list of the selected indices.
\<close>

definition non_max_suppression ::
  "'a::linordered_field list list \<Rightarrow> 'a list \<Rightarrow> int \<Rightarrow> 'a \<Rightarrow> error + nat list" where
  "non_max_suppression boxes scores max_output_size iou_threshold =
     (if \<not> (0 \<le> iou_threshold \<and> iou_threshold \<le> 1)
        then Inl (InvalidArgumentError ''iou_threshold must be in [0, 1]'')
      else if \<not> list_all (\<lambda>r. length r = 4) boxes
        then Inl (InvalidArgumentError ''boxes must have 4 columns'')
      else if length scores \<noteq> length boxes
        then Inl (InvalidArgumentError ''scores has incompatible shape'')
      else if max_output_size < 0
        then Inl (InvalidArgumentError ''output size must be non-negative'')
      else Inr (greedy_select boxes iou_threshold (nat max_output_size)
                  (by_descending_score scores) []))"

section \<open>The detector\<close>

text \<open>
  \<^verbatim>\<open>yolo_boxes_to_corners(box_xy, box_wh)\<close>, lines 81 to 91.
\<close>

definition yolo_boxes_to_corners ::
  "'a::linordered_field list list \<Rightarrow> 'a list list \<Rightarrow> error + 'a list list" where
  "yolo_boxes_to_corners box_xy box_wh =
     (case broadcast_op (-) box_xy (div_scalar box_wh 2) of
        Inl e \<Rightarrow> Inl e
      | Inr box_mins \<Rightarrow>
     (case broadcast_op (+) box_xy (div_scalar box_wh 2) of
        Inl e \<Rightarrow> Inl e
      | Inr box_maxes \<Rightarrow>
          concatenate [slice_last 1 2 box_mins, slice_last 0 1 box_mins,
                       slice_last 1 2 box_maxes, slice_last 0 1 box_maxes]))"

text \<open>
  \<^verbatim>\<open>yolo_filter_boxes(boxes, box_confidence, box_class_probs, threshold)\<close>, lines 20 to 53.
\<close>

definition yolo_filter_boxes ::
  "'a::linordered_field list list \<Rightarrow> 'a list list \<Rightarrow> 'a list list \<Rightarrow> 'a
     \<Rightarrow> error + ('a list \<times> 'a list list \<times> nat list)" where
  "yolo_filter_boxes boxes box_confidence box_class_probs threshold =
     (case broadcast_op (*) box_confidence box_class_probs of
        Inl e \<Rightarrow> Inl e
      | Inr box_scores \<Rightarrow>
     (case argmax_last box_scores of
        Inl e \<Rightarrow> Inl e
      | Inr box_classes \<Rightarrow>
     (case reduce_max_last box_scores of
        Inl e \<Rightarrow> Inl e
      | Inr box_class_scores \<Rightarrow>
     (let filtering_mask = map (\<lambda>s. s \<ge> threshold) box_class_scores in
     (case boolean_mask box_class_scores filtering_mask of
        Inl e \<Rightarrow> Inl e
      | Inr scores \<Rightarrow>
     (case boolean_mask boxes filtering_mask of
        Inl e \<Rightarrow> Inl e
      | Inr boxes' \<Rightarrow>
     (case boolean_mask box_classes filtering_mask of
        Inl e \<Rightarrow> Inl e
      | Inr classes \<Rightarrow> Inr (scores, boxes', classes))))))))"

text \<open>
  \<^verbatim>\<open>yolo_non_max_suppression(scores, boxes, classes, max_boxes, iou_threshold)\<close>,
  lines 55 to 79.
\<close>

definition yolo_non_max_suppression ::
  "'a::linordered_field list \<Rightarrow> 'a list list \<Rightarrow> nat list \<Rightarrow> int \<Rightarrow> 'a
     \<Rightarrow> error + ('a list \<times> 'a list list \<times> nat list)" where
  "yolo_non_max_suppression scores boxes classes max_boxes iou_threshold =
     (case non_max_suppression boxes scores max_boxes iou_threshold of
        Inl e \<Rightarrow> Inl e
      | Inr nms_indices \<Rightarrow>
     (case gather scores nms_indices of
        Inl e \<Rightarrow> Inl e
      | Inr scores' \<Rightarrow>
     (case gather boxes nms_indices of
        Inl e \<Rightarrow> Inl e
      | Inr boxes' \<Rightarrow>
     (case gather classes nms_indices of
        Inl e \<Rightarrow> Inl e
      | Inr classes' \<Rightarrow> Inr (scores', boxes', classes')))))"

text \<open>
  \<^verbatim>\<open>yolo_eval(yolo_outputs, image_shape, max_boxes, score_threshold, iou_threshold)\<close>,
  lines 93 to 123. \<^verbatim>\<open>scale_boxes\<close> is imported from \<^verbatim>\<open>yad2k.utils.utils\<close>, which is
  not among the sources; it is a parameter of the model, any function from the boxes and
  the image shape to boxes or an error.
\<close>

definition yolo_eval ::
  "('a::linordered_field list list \<Rightarrow> 'a list \<Rightarrow> error + 'a list list)
     \<Rightarrow> 'a list list \<times> 'a list list \<times> 'a list list \<times> 'a list list
     \<Rightarrow> 'a list \<Rightarrow> int \<Rightarrow> 'a \<Rightarrow> 'a
     \<Rightarrow> error + ('a list \<times> 'a list list \<times> nat list)" where
  "yolo_eval scale_boxes yolo_outputs image_shape max_boxes score_threshold iou_threshold =
     (case yolo_outputs of (box_xy, box_wh, box_confidence, box_class_probs) \<Rightarrow>
     (case yolo_boxes_to_corners box_xy box_wh of
        Inl e \<Rightarrow> Inl e
      | Inr boxes \<Rightarrow>
     (case yolo_filter_boxes boxes box_confidence box_class_probs iou_threshold of
        Inl e \<Rightarrow> Inl e
      | Inr (scores, boxes', classes) \<Rightarrow>
     (case scale_boxes boxes' image_shape of
        Inl e \<Rightarrow> Inl e
      | Inr boxes'' \<Rightarrow>
          yolo_non_max_suppression scores boxes'' classes max_boxes iou_threshold))))"

text \<open>
  The call of \<^verbatim>\<open>yolo_eval\<close> in \<^verbatim>\<open>predict\<close>, line 148:
  \<^verbatim>\<open>yolo_eval(yolo_outputs, [image.size[1], image.size[0]], 10, 0.3, 0.5)\<close>.
\<close>

definition predict_yolo_eval ::
  "('a::linordered_field list list \<Rightarrow> 'a list \<Rightarrow> error + 'a list list)
     \<Rightarrow> 'a list list \<times> 'a list list \<times> 'a list list \<times> 'a list list
     \<Rightarrow> 'a \<times> 'a
     \<Rightarrow> error + ('a list \<times> 'a list list \<times> nat list)" where
  "predict_yolo_eval scale_boxes yolo_outputs image_size =
     yolo_eval scale_boxes yolo_outputs [snd image_size, fst image_size] 10 (3 / 10) (1 / 2)"

subsection \<open>The module state around a call\<close>



section \<open>The transformation in the words of the specification\<close>

text \<open>
  The specification names the pipeline ``decode, filter, rescale, suppress''. Sequencing
  of two steps that may raise: the second runs on the value of the first, and an error of
  the first is the error of the whole.
\<close>

definition and_then :: "error + 'b \<Rightarrow> ('b \<Rightarrow> error + 'c) \<Rightarrow> error + 'c" where
  "and_then r f = (case r of Inl e \<Rightarrow> Inl e | Inr v \<Rightarrow> f v)"

definition decode_filter_rescale_suppress ::
  "('a::linordered_field list list \<Rightarrow> 'a list \<Rightarrow> error + 'a list list)
     \<Rightarrow> 'a list list \<Rightarrow> 'a list list \<Rightarrow> 'a list list \<Rightarrow> 'a list list
     \<Rightarrow> 'a list \<Rightarrow> int \<Rightarrow> 'a \<Rightarrow> 'a
     \<Rightarrow> error + ('a list \<times> 'a list list \<times> nat list)" where
  "decode_filter_rescale_suppress rescale centers sizes confidence class_probs
       image_shape max_boxes filter_threshold overlap_threshold =
     and_then (yolo_boxes_to_corners centers sizes) (\<lambda>corners.
     and_then (yolo_filter_boxes corners confidence class_probs filter_threshold) (\<lambda>kept.
     and_then (rescale (fst (snd kept)) image_shape) (\<lambda>scaled.
       yolo_non_max_suppression (fst kept) scaled (snd (snd kept)) max_boxes overlap_threshold)))"

text \<open>
  The largest product of a box's confidence with a class probability, as a maximum of a
  finite set.
\<close>

definition max_class_score :: "'a::linordered_field \<Rightarrow> 'a list \<Rightarrow> 'a" where
  "max_class_score c probs = Max ((\<lambda>p. c * p) ` set probs)"

text \<open>
  The corner representation of one box: the minimum corner is the center minus half the
  size, the maximum corner the center plus half the size, in the order
  \<open>y_min, x_min, y_max, x_max\<close>. A center is \<open>[x, y]\<close> and a size \<open>[w, h]\<close>.
\<close>

definition corners_of :: "'a::linordered_field list \<Rightarrow> 'a list \<Rightarrow> 'a list" where
  "corners_of xy wh =
     [xy ! 1 - wh ! 1 / 2, xy ! 0 - wh ! 0 / 2, xy ! 1 + wh ! 1 / 2, xy ! 0 + wh ! 0 / 2]"

text \<open>
  A grid cell is a box with its confidence and its class probabilities. Its class scores
  are the products of the confidence with each class probability, its score is the
  largest of them and its class is the first index at which that largest score stands.
\<close>

definition grid_cells ::
  "'a list list \<Rightarrow> 'a list list \<Rightarrow> 'a list list \<Rightarrow> ('a list \<times> 'a list \<times> 'a list) list" where
  "grid_cells boxes box_confidence box_class_probs = zip boxes (zip box_confidence box_class_probs)"

definition class_scores :: "'a::linordered_field list \<Rightarrow> 'a list \<Rightarrow> 'a list" where
  "class_scores c probs = map (\<lambda>p. hd c * p) probs"

definition best_class :: "'a::linorder list \<Rightarrow> nat" where
  "best_class xs = length (takeWhile (\<lambda>x. x \<noteq> Max (set xs)) xs)"

definition cell_score :: "'a::linordered_field list \<times> 'a list \<times> 'a list \<Rightarrow> 'a" where
  "cell_score cell = max_class_score (hd (fst (snd cell))) (snd (snd cell))"

definition cell_class :: "'a::linordered_field list \<times> 'a list \<times> 'a list \<Rightarrow> nat" where
  "cell_class cell = best_class (class_scores (fst (snd cell)) (snd (snd cell)))"

text \<open>The cells that a threshold keeps: those whose score is at least the threshold.\<close>

definition kept_cells ::
  "'a::linordered_field \<Rightarrow> 'a list list \<Rightarrow> 'a list list \<Rightarrow> 'a list list
     \<Rightarrow> ('a list \<times> 'a list \<times> 'a list) list" where
  "kept_cells threshold boxes box_confidence box_class_probs =
     filter (\<lambda>cell. threshold \<le> cell_score cell) (grid_cells boxes box_confidence box_class_probs)"

text \<open>
  The indices that the suppression selects once its arguments have passed the checks: the
  greedy selection over the candidates by descending score, from nothing selected.
\<close>

definition nms_order :: "'a::linordered_field list list \<Rightarrow> 'a list \<Rightarrow> int \<Rightarrow> 'a \<Rightarrow> nat list" where
  "nms_order boxes scores max_boxes iou_threshold =
     greedy_select boxes iou_threshold (nat max_boxes) (by_descending_score scores) []"

text \<open>
  Modelled from the spec: \<^verbatim>\<open>scale_boxes\<close> of \<^verbatim>\<open>yad2k.utils.utils\<close> is not among the
  sources. The spec says that the boxes are rescaled to the image shape: each row
  \<open>[y\<^sub>1, x\<^sub>1, y\<^sub>2, x\<^sub>2]\<close> is multiplied entry by entry with
  \<open>[height, width, height, width]\<close>. The theorems below hold for every \<^verbatim>\<open>scale_boxes\<close>;
  this one serves as an instance.
\<close>

definition scale_boxes :: "'a::linordered_field list list \<Rightarrow> 'a list \<Rightarrow> error + 'a list list" where
  "scale_boxes boxes image_shape =
     (case image_shape of
        [height, width] \<Rightarrow>
          broadcast_op (*) boxes (map (\<lambda>_. [height, width, height, width]) boxes)
      | _ \<Rightarrow> Inl (OtherError ''image_shape must have two entries''))"

section \<open>A frame worked by hand\<close>

text \<open>
  Four grid cells and two classes. The corners are \<open>[0, 0, 1, 1]\<close>,
  \<open>[1/10, 0, 11/10, 1]\<close>, \<open>[2, 2, 4, 4]\<close> and \<open>[9/2, 9/2, 11/2, 11/2]\<close>; the best class
  scores are \<open>18/25\<close>, \<open>3/5\<close>, \<open>7/10\<close> and \<open>1/5\<close>. With the threshold \<open>1/2\<close> the fourth
  cell is filtered out; the second box overlaps the first by \<open>9/11\<close> and is suppressed.
\<close>

definition example_outputs ::
  "real list list \<times> real list list \<times> real list list \<times> real list list" where
  "example_outputs =
     ([[1/2, 1/2], [1/2, 3/5], [3, 3], [5, 5]],
      [[1, 1], [1, 1], [2, 2], [1, 1]],
      [[9/10], [1], [1], [1/2]],
      [[4/5, 1/10], [3/5, 3/10], [1/5, 7/10], [2/5, 2/5]])"


section \<open>Auxiliary facts\<close>

lemma collect_map_Inr: "collect (map Inr vs) = Inr vs"
  by (induction vs) simp_all

lemma collect_Inr_D: "collect rs = Inr vs \<Longrightarrow> rs = map Inr vs"
  by (induction rs arbitrary: vs rule: collect.induct) (auto split: sum.splits)

lemma broadcast_op_same_width:
  assumes "length a = length b" and "list_all2 (\<lambda>r s. length r = length s) a b"
  shows "broadcast_op f a b = Inr (map2 (map2 f) a b)"
proof -
  from assms(2) have "map2 (broadcast_row f) a b = map Inr (map2 (map2 f) a b)"
    by (induction rule: list_all2_induct) (simp_all add: broadcast_row_def)
  then have "collect (map2 (broadcast_row f) a b) = Inr (map2 (map2 f) a b)"
    by (simp only: collect_map_Inr)
  with assms(1) show ?thesis
    unfolding broadcast_op_def by simp
qed

lemma concatenate_four:
  assumes "length t1 = n" "length t2 = n" "length t3 = n" "length t4 = n"
  shows "concatenate [t1, t2, t3, t4] = Inr (map2 (@) t1 (map2 (@) t2 (map2 (@) t3 t4)))"
  using assms by simp

lemma pair_row: "length r = 2 \<Longrightarrow> r = [r ! 0, r ! 1]"
  by (cases r; cases "tl r") auto

lemma corner_row:
  assumes "length r = 2" "length s = 2"
  shows "take (Suc 0) (drop (Suc 0) (map2 f r s)) = [f (r ! 1) (s ! 1)]"
    and "take (Suc 0) (map2 f r s) = [f (r ! 0) (s ! 0)]"
proof -
  obtain a b where r: "r = [a, b]" using pair_row [OF assms(1)] by blast
  obtain c d where s: "s = [c, d]" using pair_row [OF assms(2)] by blast
  show "take (Suc 0) (drop (Suc 0) (map2 f r s)) = [f (r ! 1) (s ! 1)]"
    and "take (Suc 0) (map2 f r s) = [f (r ! 0) (s ! 0)]"
    by (simp_all add: r s)
qed

lemma broadcast_row_single:
  "length xs = 1 \<Longrightarrow> broadcast_row f xs ys = Inr (map (f (hd xs)) ys)"
  by (cases xs; cases ys; cases "tl ys") (auto simp: broadcast_row_def)

lemma broadcast_op_confidence:
  assumes "length conf = length probs" and "list_all (\<lambda>r. length r = 1) conf"
  shows "broadcast_op f conf probs = Inr (map2 (\<lambda>c p. map (f (hd c)) p) conf probs)"
proof -
  from assms have "map2 (broadcast_row f) conf probs
      = map Inr (map2 (\<lambda>c p. map (f (hd c)) p) conf probs)"
    by (induction conf probs rule: list_induct2) (simp_all add: broadcast_row_single)
  then have "collect (map2 (broadcast_row f) conf probs)
      = Inr (map2 (\<lambda>c p. map (f (hd c)) p) conf probs)"
    by (simp only: collect_map_Inr)
  with assms(1) show ?thesis unfolding broadcast_op_def by simp
qed

lemma takeWhile_neq_append_mem:
  "m \<in> set pre \<Longrightarrow> takeWhile (\<lambda>x. x \<noteq> m) (pre @ xs) = takeWhile (\<lambda>x. x \<noteq> m) pre"
  by (induction pre) auto

lemma argmax_from_prefix:
  assumes "pre \<noteq> []"
  shows "argmax_from xs (length pre) (Max (set pre)) (best_class pre) = best_class (pre @ xs)"
  using assms
proof (induction xs arbitrary: pre)
  case Nil
  then show ?case by simp
next
  case (Cons x xs)
  have fin: "finite (set pre)" by simp
  have ne: "set pre \<noteq> {}" using Cons.prems by simp
  have app: "pre @ x # xs = (pre @ [x]) @ xs" by simp
  show ?case
  proof (cases "Max (set pre) < x")
    case True
    have "Max (set (pre @ [x])) = max x (Max (set pre))"
      using ne by simp
    also have "\<dots> = x" using True by (intro max_absorb1 less_imp_le)
    finally have mx: "Max (set (pre @ [x])) = x" .
    have "\<forall>y\<in>set pre. y \<noteq> x"
    proof
      fix y assume "y \<in> set pre"
      then have "y \<le> Max (set pre)" by simp
      with True show "y \<noteq> x" by simp
    qed
    then have "best_class (pre @ [x]) = length pre"
      unfolding best_class_def mx by (simp add: takeWhile_append2)
    with Cons.IH [of "pre @ [x]"] mx True show ?thesis
      by (simp only: app) simp
  next
    case False
    have "Max (set (pre @ [x])) = max x (Max (set pre))"
      using ne by simp
    also have "\<dots> = Max (set pre)" using False by (intro max_absorb2) simp
    finally have mx: "Max (set (pre @ [x])) = Max (set pre)" .
    have "Max (set pre) \<in> set pre" using Max_in [OF fin ne] .
    then have "best_class (pre @ [x]) = best_class pre"
      unfolding best_class_def mx by (simp only: takeWhile_neq_append_mem)
    with Cons.IH [of "pre @ [x]"] mx False show ?thesis
      by (simp only: app) simp
  qed
qed

lemma argmax_row_best_class: "xs \<noteq> [] \<Longrightarrow> argmax_row xs = Inr (best_class xs)"
proof (cases xs)
  case Nil
  assume "xs \<noteq> []"
  with Nil show ?thesis by simp
next
  case (Cons x ys)
  have "best_class [x] = 0" by (simp add: best_class_def)
  with argmax_from_prefix [of "[x]" ys] Cons show ?thesis by simp
qed

lemma reduce_max_row_Max: "xs \<noteq> [] \<Longrightarrow> reduce_max_row xs = Inr (Max (set xs))"
proof (cases xs)
  case Nil
  assume "xs \<noteq> []"
  with Nil show ?thesis by simp
next
  case (Cons x ys)
  then show ?thesis using Max.set_eq_fold [of x ys] by simp
qed

lemma argmax_last_rows:
  assumes "list_all (\<lambda>r. r \<noteq> []) t"
  shows "argmax_last t = Inr (map best_class t)"
proof -
  from assms have "map argmax_row t = map Inr (map best_class t)"
    by (induction t) (simp_all add: argmax_row_best_class)
  then show ?thesis unfolding argmax_last_def by (simp only: collect_map_Inr)
qed

lemma reduce_max_last_rows:
  assumes "list_all (\<lambda>r. r \<noteq> []) t"
  shows "reduce_max_last t = Inr (map (\<lambda>r. Max (set r)) t)"
proof -
  from assms have "map reduce_max_row t = map Inr (map (\<lambda>r. Max (set r)) t)"
    by (induction t) (simp_all add: reduce_max_row_Max)
  then show ?thesis unfolding reduce_max_last_def by (simp only: collect_map_Inr)
qed

lemma boolean_mask_maps:
  "boolean_mask (map f cells) (map P cells) = Inr (map f (filter P cells))"
  by (induction cells) (simp_all add: boolean_mask_def)

lemma best_class_argmax:
  assumes "xs \<noteq> []"
  shows "best_class xs < length xs" and "xs ! best_class xs = Max (set xs)"
    and "\<forall>j < length xs. xs ! j \<le> Max (set xs)"
    and "\<forall>j < best_class xs. xs ! j < Max (set xs)"
proof -
  have mem: "Max (set xs) \<in> set xs" using assms by (simp add: Max_in)
  then have "takeWhile (\<lambda>x. x \<noteq> Max (set xs)) xs \<noteq> xs"
    by (metis (mono_tags, lifting) takeWhile_eq_all_conv)
  then show lt: "best_class xs < length xs"
    unfolding best_class_def
    by (metis length_takeWhile_le le_neq_implies_less takeWhile_eq_take take_all_iff)
  show "xs ! best_class xs = Max (set xs)"
    using nth_length_takeWhile [of "\<lambda>x. x \<noteq> Max (set xs)" xs] lt
    unfolding best_class_def by blast
  show "\<forall>j < length xs. xs ! j \<le> Max (set xs)" by simp
  show "\<forall>j < best_class xs. xs ! j < Max (set xs)"
  proof (intro allI impI)
    fix j assume j: "j < best_class xs"
    then have "xs ! j \<noteq> Max (set xs)"
      unfolding best_class_def
      using nth_mem [of j "takeWhile (\<lambda>x. x \<noteq> Max (set xs)) xs"]
      by (metis (mono_tags, lifting) set_takeWhileD takeWhile_nth)
    moreover have "xs ! j \<le> Max (set xs)" using j lt by simp
    ultimately show "xs ! j < Max (set xs)" by simp
  qed
qed

lemma rows_of_cells:
  assumes "length boxes = length probs" and "length conf = length probs"
  shows "map2 (\<lambda>c p. map ((*) (hd c)) p) conf probs
           = map (\<lambda>cell. class_scores (fst (snd cell)) (snd (snd cell))) (grid_cells boxes conf probs)"
    and "boxes = map fst (grid_cells boxes conf probs)"
proof -
  have z: "map snd (zip boxes (zip conf probs)) = zip conf probs"
    using assms by (simp add: map_snd_zip)
  have "map (\<lambda>cell. class_scores (fst (snd cell)) (snd (snd cell))) (grid_cells boxes conf probs)
      = map (\<lambda>(c, p). class_scores c p) (map snd (zip boxes (zip conf probs)))"
    unfolding grid_cells_def by (simp add: case_prod_beta comp_def)
  also have "\<dots> = map2 (\<lambda>c p. map ((*) (hd c)) p) conf probs"
    unfolding z class_scores_def ..
  finally show "map2 (\<lambda>c p. map ((*) (hd c)) p) conf probs
           = map (\<lambda>cell. class_scores (fst (snd cell)) (snd (snd cell))) (grid_cells boxes conf probs)"
    by simp
  show "boxes = map fst (grid_cells boxes conf probs)"
    unfolding grid_cells_def using assms by (simp add: map_fst_zip)
qed

lemma cells_nonempty_rows:
  assumes "list_all (\<lambda>r. r \<noteq> []) probs"
  shows "list_all (\<lambda>r. r \<noteq> [])
           (map (\<lambda>cell. class_scores (fst (snd cell)) (snd (snd cell))) (grid_cells boxes conf probs))"
proof -
  have "\<forall>cell \<in> set (grid_cells boxes conf probs). snd (snd cell) \<noteq> []"
  proof
    fix cell assume "cell \<in> set (grid_cells boxes conf probs)"
    then have "snd (snd cell) \<in> set probs"
      unfolding grid_cells_def by (metis prod.collapse set_zip_rightD)
    with assms show "snd (snd cell) \<noteq> []" by (simp add: list_all_iff)
  qed
  then show ?thesis by (simp add: list_all_iff class_scores_def)
qed

lemma yolo_filter_boxes_cells:
  assumes "length boxes = length box_class_probs"
    and "length box_confidence = length box_class_probs"
    and "list_all (\<lambda>r. length r = 1) box_confidence"
    and "list_all (\<lambda>r. r \<noteq> []) box_class_probs"
  shows "yolo_filter_boxes boxes box_confidence box_class_probs threshold =
     Inr (map cell_score
            (filter (\<lambda>cell. threshold \<le> cell_score cell)
               (grid_cells boxes box_confidence box_class_probs)),
          map fst
            (filter (\<lambda>cell. threshold \<le> cell_score cell)
               (grid_cells boxes box_confidence box_class_probs)),
          map cell_class
            (filter (\<lambda>cell. threshold \<le> cell_score cell)
               (grid_cells boxes box_confidence box_class_probs)))"
proof -
  let ?cells = "grid_cells boxes box_confidence box_class_probs"
  let ?rows = "map (\<lambda>cell. class_scores (fst (snd cell)) (snd (snd cell))) ?cells"
  let ?keep = "\<lambda>cell. threshold \<le> cell_score cell"
  have scores: "broadcast_op (*) box_confidence box_class_probs = Inr ?rows"
    using broadcast_op_confidence [OF assms(2,3), of "(*)"] rows_of_cells(1) [OF assms(1,2)]
    by simp
  have ne: "list_all (\<lambda>r. r \<noteq> []) ?rows" by (rule cells_nonempty_rows [OF assms(4)])
  have "map best_class ?rows = map cell_class ?cells"
    by (simp add: cell_class_def)
  then have classes: "argmax_last ?rows = Inr (map cell_class ?cells)"
    using argmax_last_rows [OF ne] by simp
  have "map (\<lambda>r. Max (set r)) ?rows = map cell_score ?cells"
    by (simp add: cell_score_def max_class_score_def class_scores_def)
  then have maxes: "reduce_max_last ?rows = Inr (map cell_score ?cells)"
    using reduce_max_last_rows [OF ne] by simp
  have msk: "map (\<lambda>s. s \<ge> threshold) (map cell_score ?cells) = map ?keep ?cells"
    by simp
  have m1: "boolean_mask (map cell_score ?cells) (map ?keep ?cells)
      = Inr (map cell_score (filter ?keep ?cells))"
    by (rule boolean_mask_maps)
  have "boolean_mask (map fst ?cells) (map ?keep ?cells) = Inr (map fst (filter ?keep ?cells))"
    by (rule boolean_mask_maps)
  then have m2: "boolean_mask boxes (map ?keep ?cells) = Inr (map fst (filter ?keep ?cells))"
    using rows_of_cells(2) [OF assms(1,2)] by simp
  have m3: "boolean_mask (map cell_class ?cells) (map ?keep ?cells)
      = Inr (map cell_class (filter ?keep ?cells))"
    by (rule boolean_mask_maps)
  show ?thesis
    unfolding yolo_filter_boxes_def Let_def
    by (simp only: scores classes maxes msk m1 m2 m3 sum.case)
qed

lemma cell_class_argmax:
  assumes "snd (snd cell) \<noteq> []"
  shows "cell_class cell < length (snd (snd cell))"
    and "hd (fst (snd cell)) * snd (snd cell) ! cell_class cell = cell_score cell"
    and "\<forall>j < length (snd (snd cell)). hd (fst (snd cell)) * snd (snd cell) ! j \<le> cell_score cell"
    and "\<forall>j < cell_class cell. hd (fst (snd cell)) * snd (snd cell) ! j < cell_score cell"
proof -
  let ?xs = "class_scores (fst (snd cell)) (snd (snd cell))"
  have ne: "?xs \<noteq> []" using assms by (simp add: class_scores_def)
  have len: "length ?xs = length (snd (snd cell))" by (simp add: class_scores_def)
  have mx: "Max (set ?xs) = cell_score cell"
    by (simp add: cell_score_def max_class_score_def class_scores_def)
  have nth: "\<And>j. j < length (snd (snd cell)) \<Longrightarrow> ?xs ! j = hd (fst (snd cell)) * snd (snd cell) ! j"
    by (simp add: class_scores_def)
  note facts = best_class_argmax [OF ne, folded cell_class_def, unfolded mx len]
  show lt: "cell_class cell < length (snd (snd cell))" by (rule facts(1))
  show "hd (fst (snd cell)) * snd (snd cell) ! cell_class cell = cell_score cell"
    using facts(2) nth [OF lt] by simp
  show "\<forall>j < length (snd (snd cell)). hd (fst (snd cell)) * snd (snd cell) ! j \<le> cell_score cell"
    using facts(3) nth by simp
  show "\<forall>j < cell_class cell. hd (fst (snd cell)) * snd (snd cell) ! j < cell_score cell"
    using facts(4) nth lt by simp
qed

lemma greedy_select_set:
  "set (greedy_select boxes thr k cs sel) \<subseteq> set sel \<union> set cs"
proof (induction cs arbitrary: sel)
  case Nil
  then show ?case by simp
next
  case (Cons c cs)
  from Cons.IH [of sel] Cons.IH [of "sel @ [c]"] show ?case by auto
qed

lemma greedy_select_keeps_selected:
  "set sel \<subseteq> set (greedy_select boxes thr k cs sel)"
proof (induction cs arbitrary: sel)
  case Nil
  then show ?case by simp
next
  case (Cons c cs)
  from Cons.IH [of sel] Cons.IH [of "sel @ [c]"] show ?case by auto
qed

lemma greedy_select_length:
  "length (greedy_select boxes thr k cs sel) \<le> max k (length sel)"
proof (induction cs arbitrary: sel)
  case Nil
  then show ?case by simp
next
  case (Cons c cs)
  show ?case
  proof (cases "k \<le> length sel")
    case True
    then show ?thesis by simp
  next
    case False
    then have "max k (length (sel @ [c])) = max k (length sel)" by simp
    with Cons.IH [of sel] Cons.IH [of "sel @ [c]"] False show ?thesis by simp
  qed
qed

lemma greedy_select_distinct:
  "distinct (sel @ cs) \<Longrightarrow> distinct (greedy_select boxes thr k cs sel)"
proof (induction cs arbitrary: sel)
  case Nil
  then show ?case by simp
next
  case (Cons c cs)
  from Cons.prems have a: "distinct (sel @ cs)" and b: "distinct ((sel @ [c]) @ cs)"
    and s: "distinct sel" by auto
  show ?case using Cons.IH [OF a] Cons.IH [OF b] s by simp
qed

lemma greedy_select_sorted_wrt:
  "sorted_wrt R (sel @ cs) \<Longrightarrow> sorted_wrt R (greedy_select boxes thr k cs sel)"
proof (induction cs arbitrary: sel)
  case Nil
  then show ?case by simp
next
  case (Cons c cs)
  from Cons.prems have a: "sorted_wrt R (sel @ cs)" and b: "sorted_wrt R ((sel @ [c]) @ cs)"
    and s: "sorted_wrt R sel" by (auto simp: sorted_wrt_append)
  show ?case using Cons.IH [OF a] Cons.IH [OF b] s by simp
qed

lemma greedy_select_no_overlap:
  "sorted_wrt (\<lambda>s c. \<not> thr < iou boxes c s) sel
     \<Longrightarrow> sorted_wrt (\<lambda>s c. \<not> thr < iou boxes c s) (greedy_select boxes thr k cs sel)"
proof (induction cs arbitrary: sel)
  case Nil
  then show ?case by simp
next
  case (Cons c cs)
  show ?case
  proof (cases "k \<le> length sel \<or> list_ex (\<lambda>s. thr < iou boxes c s) sel")
    case True
    with Cons show ?thesis by auto
  next
    case False
    then have "sorted_wrt (\<lambda>s c. \<not> thr < iou boxes c s) (sel @ [c])"
      using Cons.prems by (auto simp: sorted_wrt_append list_ex_iff)
    from Cons.IH [OF this] False show ?thesis by simp
  qed
qed

lemma greedy_select_complete:
  assumes "sorted_wrt R (sel @ cs)" and "c \<in> set cs"
    and "c \<notin> set (greedy_select boxes thr k cs sel)"
  shows "k \<le> length (greedy_select boxes thr k cs sel)
       \<or> (\<exists>s \<in> set (greedy_select boxes thr k cs sel). thr < iou boxes c s \<and> R s c)"
  using assms
proof (induction cs arbitrary: sel)
  case Nil
  then show ?case by simp
next
  case (Cons d cs)
  show ?case
  proof (cases "k \<le> length sel")
    case True
    then show ?thesis by simp
  next
    case full: False
    from Cons.prems(1) have a: "sorted_wrt R (sel @ cs)" and b: "sorted_wrt R ((sel @ [d]) @ cs)"
      and before: "\<forall>s \<in> set sel. R s d"
      by (auto simp: sorted_wrt_append)
    show ?thesis
    proof (cases "list_ex (\<lambda>s. thr < iou boxes d s) sel")
      case True
      then have res: "greedy_select boxes thr k (d # cs) sel = greedy_select boxes thr k cs sel"
        using full by simp
      show ?thesis
      proof (cases "c = d")
        case True
        from \<open>list_ex (\<lambda>s. thr < iou boxes d s) sel\<close> obtain s
          where "s \<in> set sel" "thr < iou boxes d s" by (auto simp: list_ex_iff)
        with before greedy_select_keeps_selected [of sel boxes thr k cs] True res
        show ?thesis by auto
      next
        case False
        with Cons.prems(2) have "c \<in> set cs" by simp
        from Cons.IH [OF a this] Cons.prems(3) res show ?thesis by simp
      qed
    next
      case False
      then have res: "greedy_select boxes thr k (d # cs) sel
          = greedy_select boxes thr k cs (sel @ [d])"
        using full by simp
      have "d \<in> set (greedy_select boxes thr k cs (sel @ [d]))"
        using greedy_select_keeps_selected [of "sel @ [d]" boxes thr k cs] by simp
      with Cons.prems(3) res have "c \<noteq> d" by auto
      with Cons.prems(2) have "c \<in> set cs" by simp
      from Cons.IH [OF b this] Cons.prems(3) res show ?thesis by simp
    qed
  qed
qed

lemma by_descending_score_set: "set (by_descending_score scores) = {0..<length scores}"
  by (simp add: by_descending_score_def)

lemma by_descending_score_distinct: "distinct (by_descending_score scores)"
  by (simp add: by_descending_score_def)

lemma by_descending_score_sorted:
  "sorted_wrt (\<lambda>i j. scores ! j \<le> scores ! i) (by_descending_score scores)"
proof -
  have "sorted (map (\<lambda>i. - (scores ! i)) (by_descending_score scores))"
    unfolding by_descending_score_def by (rule sorted_sort_key)
  then show ?thesis by (simp add: sorted_map)
qed

lemma gather_in_range:
  assumes "\<forall>i \<in> set idx. i < length params"
  shows "gather params idx = Inr (map ((!) params) idx)"
proof -
  from assms have "map (\<lambda>i. if i < length params then Inr (params ! i)
                        else Inl (InvalidArgumentError ''indices out of range'')) idx
      = map Inr (map ((!) params) idx)"
    by simp
  then show ?thesis unfolding gather_def by (simp only: collect_map_Inr)
qed

lemma gather_Inr_D:
  assumes "gather params idx = Inr r"
  shows "r = map ((!) params) idx" and "\<forall>i \<in> set idx. i < length params"
proof -
  from assms have eq: "map (\<lambda>i. if i < length params then Inr (params ! i)
                        else Inl (InvalidArgumentError ''indices out of range'')) idx
      = map Inr r"
    unfolding gather_def by (rule collect_Inr_D)
  show inr: "\<forall>i \<in> set idx. i < length params"
  proof
    fix i assume "i \<in> set idx"
    then have "(if i < length params then Inr (params ! i)
                else Inl (InvalidArgumentError ''indices out of range'')) \<in> set (map Inr r)"
      using eq [symmetric] by (simp add: image_iff) blast
    then show "i < length params" by (auto split: if_splits)
  qed
  from gather_in_range [OF inr] assms show "r = map ((!) params) idx" by simp
qed

lemma yolo_boxes_to_corners_eq:
  assumes "length box_xy = length box_wh"
    and "list_all (\<lambda>r. length r = 2) box_xy"
    and "list_all (\<lambda>r. length r = 2) box_wh"
  shows "yolo_boxes_to_corners box_xy box_wh = Inr (map2 corners_of box_xy box_wh)"
proof -
  let ?half = "div_scalar box_wh 2"
  have len: "length box_xy = length ?half" using assms(1) by (simp add: div_scalar_def)
  have w: "list_all2 (\<lambda>r s. length r = length s) box_xy ?half"
    using assms by (auto simp: list_all2_conv_all_nth list_all_length div_scalar_def)
  have mins: "broadcast_op (-) box_xy ?half = Inr (map2 (map2 (-)) box_xy ?half)"
    and maxes: "broadcast_op (+) box_xy ?half = Inr (map2 (map2 (+)) box_xy ?half)"
    using broadcast_op_same_width [OF len w] by simp_all
  have "map2 (@) (slice_last 1 2 (map2 (map2 (-)) box_xy ?half))
         (map2 (@) (slice_last 0 1 (map2 (map2 (-)) box_xy ?half))
           (map2 (@) (slice_last 1 2 (map2 (map2 (+)) box_xy ?half))
                     (slice_last 0 1 (map2 (map2 (+)) box_xy ?half))))
        = map2 corners_of box_xy box_wh"
  proof (rule nth_equalityI)
    show "length (map2 (@) (slice_last 1 2 (map2 (map2 (-)) box_xy ?half))
         (map2 (@) (slice_last 0 1 (map2 (map2 (-)) box_xy ?half))
           (map2 (@) (slice_last 1 2 (map2 (map2 (+)) box_xy ?half))
                     (slice_last 0 1 (map2 (map2 (+)) box_xy ?half)))))
        = length (map2 corners_of box_xy box_wh)"
      using assms(1) by (simp add: slice_last_def div_scalar_def)
  next
    fix i
    assume "i < length (map2 (@) (slice_last 1 2 (map2 (map2 (-)) box_xy ?half))
         (map2 (@) (slice_last 0 1 (map2 (map2 (-)) box_xy ?half))
           (map2 (@) (slice_last 1 2 (map2 (map2 (+)) box_xy ?half))
                     (slice_last 0 1 (map2 (map2 (+)) box_xy ?half)))))"
    then have i: "i < length box_xy" "i < length box_wh"
      using assms(1) by (simp_all add: slice_last_def div_scalar_def)
    then have r: "length (box_xy ! i) = 2" and s: "length (map (\<lambda>x. x / 2) (box_wh ! i)) = 2"
      using assms(2,3) by (simp_all add: list_all_length)
    have s2: "length (box_wh ! i) = 2" using s by simp
    show "map2 (@) (slice_last 1 2 (map2 (map2 (-)) box_xy ?half))
         (map2 (@) (slice_last 0 1 (map2 (map2 (-)) box_xy ?half))
           (map2 (@) (slice_last 1 2 (map2 (map2 (+)) box_xy ?half))
                     (slice_last 0 1 (map2 (map2 (+)) box_xy ?half)))) ! i
        = map2 corners_of box_xy box_wh ! i"
      using i by (simp add: slice_last_def div_scalar_def corner_row [OF r s] corners_of_def s2)
  qed
  moreover have "concatenate [slice_last 1 2 (map2 (map2 (-)) box_xy ?half),
         slice_last 0 1 (map2 (map2 (-)) box_xy ?half),
         slice_last 1 2 (map2 (map2 (+)) box_xy ?half),
         slice_last 0 1 (map2 (map2 (+)) box_xy ?half)]
       = Inr (map2 (@) (slice_last 1 2 (map2 (map2 (-)) box_xy ?half))
         (map2 (@) (slice_last 0 1 (map2 (map2 (-)) box_xy ?half))
           (map2 (@) (slice_last 1 2 (map2 (map2 (+)) box_xy ?half))
                     (slice_last 0 1 (map2 (map2 (+)) box_xy ?half)))))"
    by (rule concatenate_four [where n = "length box_xy"])
      (simp_all add: slice_last_def len [symmetric])
  ultimately show ?thesis
    unfolding yolo_boxes_to_corners_def by (simp only: mins maxes sum.case)
qed

lemma non_max_suppression_Inr_iff:
  "non_max_suppression boxes scores max_boxes iou_threshold = Inr idx \<longleftrightarrow>
     0 \<le> iou_threshold \<and> iou_threshold \<le> 1 \<and> list_all (\<lambda>r. length r = 4) boxes
     \<and> length scores = length boxes \<and> 0 \<le> max_boxes
     \<and> idx = nms_order boxes scores max_boxes iou_threshold"
  unfolding non_max_suppression_def nms_order_def by auto

lemma nms_order_facts:
  shows nms_order_range: "set (nms_order boxes scores max_boxes thr) \<subseteq> {0..<length scores}"
    and nms_order_distinct: "distinct (nms_order boxes scores max_boxes thr)"
    and nms_order_length: "length (nms_order boxes scores max_boxes thr) \<le> nat max_boxes"
    and nms_order_descending:
      "sorted_wrt (\<lambda>i j. scores ! j \<le> scores ! i) (nms_order boxes scores max_boxes thr)"
    and nms_order_no_overlap:
      "sorted_wrt (\<lambda>s c. \<not> thr < iou boxes c s) (nms_order boxes scores max_boxes thr)"
proof -
  show "set (nms_order boxes scores max_boxes thr) \<subseteq> {0..<length scores}"
    unfolding nms_order_def
    using greedy_select_set [of boxes thr "nat max_boxes" "by_descending_score scores" "[]"]
    by (simp add: by_descending_score_set)
  show "distinct (nms_order boxes scores max_boxes thr)"
    unfolding nms_order_def
    by (rule greedy_select_distinct) (simp add: by_descending_score_distinct)
  show "length (nms_order boxes scores max_boxes thr) \<le> nat max_boxes"
    unfolding nms_order_def
    using greedy_select_length [of boxes thr "nat max_boxes" "by_descending_score scores" "[]"]
    by simp
  show "sorted_wrt (\<lambda>i j. scores ! j \<le> scores ! i) (nms_order boxes scores max_boxes thr)"
    unfolding nms_order_def
    by (rule greedy_select_sorted_wrt) (simp add: by_descending_score_sorted)
  show "sorted_wrt (\<lambda>s c. \<not> thr < iou boxes c s) (nms_order boxes scores max_boxes thr)"
    unfolding nms_order_def
    by (rule greedy_select_no_overlap) simp
qed

lemma nms_order_complete:
  assumes "c < length scores" and "c \<notin> set (nms_order boxes scores max_boxes thr)"
  shows "length (nms_order boxes scores max_boxes thr) = nat max_boxes
       \<or> (\<exists>s \<in> set (nms_order boxes scores max_boxes thr).
             thr < iou boxes c s \<and> scores ! c \<le> scores ! s)"
proof -
  have mem: "c \<in> set (by_descending_score scores)"
    using assms(1) by (simp add: by_descending_score_set)
  have srt: "sorted_wrt (\<lambda>i j. scores ! j \<le> scores ! i) ([] @ by_descending_score scores)"
    by (simp add: by_descending_score_sorted)
  from greedy_select_complete [OF srt mem assms(2) [unfolded nms_order_def]]
  have "nat max_boxes \<le> length (nms_order boxes scores max_boxes thr)
       \<or> (\<exists>s \<in> set (nms_order boxes scores max_boxes thr).
             thr < iou boxes c s \<and> scores ! c \<le> scores ! s)"
    unfolding nms_order_def .
  with nms_order_length [of boxes scores max_boxes thr] show ?thesis by auto
qed

lemma yolo_non_max_suppression_Inr_D:
  assumes "yolo_non_max_suppression scores boxes classes max_boxes iou_threshold
             = Inr (scores', boxes', classes')"
  shows "0 \<le> iou_threshold" "iou_threshold \<le> 1" "list_all (\<lambda>r. length r = 4) boxes"
    "length scores = length boxes" "0 \<le> max_boxes"
    "scores' = map ((!) scores) (nms_order boxes scores max_boxes iou_threshold)"
    "boxes' = map ((!) boxes) (nms_order boxes scores max_boxes iou_threshold)"
    "classes' = map ((!) classes) (nms_order boxes scores max_boxes iou_threshold)"
    "\<forall>i \<in> set (nms_order boxes scores max_boxes iou_threshold). i < length classes"
proof -
  from assms obtain idx where
    nms: "non_max_suppression boxes scores max_boxes iou_threshold = Inr idx"
    and g1: "gather scores idx = Inr scores'"
    and g2: "gather boxes idx = Inr boxes'"
    and g3: "gather classes idx = Inr classes'"
    unfolding yolo_non_max_suppression_def by (auto split: sum.splits)
  from nms have idx: "idx = nms_order boxes scores max_boxes iou_threshold"
    and chk: "0 \<le> iou_threshold" "iou_threshold \<le> 1" "list_all (\<lambda>r. length r = 4) boxes"
      "length scores = length boxes" "0 \<le> max_boxes"
    by (simp_all add: non_max_suppression_Inr_iff)
  show "0 \<le> iou_threshold" "iou_threshold \<le> 1" "list_all (\<lambda>r. length r = 4) boxes"
    "length scores = length boxes" "0 \<le> max_boxes" by (fact chk)+
  show "scores' = map ((!) scores) (nms_order boxes scores max_boxes iou_threshold)"
    using gather_Inr_D(1) [OF g1] idx by simp
  show "boxes' = map ((!) boxes) (nms_order boxes scores max_boxes iou_threshold)"
    using gather_Inr_D(1) [OF g2] idx by simp
  show "classes' = map ((!) classes) (nms_order boxes scores max_boxes iou_threshold)"
    using gather_Inr_D(1) [OF g3] idx by simp
  show "\<forall>i \<in> set (nms_order boxes scores max_boxes iou_threshold). i < length classes"
    using gather_Inr_D(2) [OF g3] idx by simp
qed

lemma yolo_non_max_suppression_total:
  assumes "0 \<le> iou_threshold" "iou_threshold \<le> 1" "list_all (\<lambda>r. length r = 4) boxes"
    "length scores = length boxes" "length classes = length boxes" "0 \<le> max_boxes"
  shows "yolo_non_max_suppression scores boxes classes max_boxes iou_threshold =
     Inr (map ((!) scores) (nms_order boxes scores max_boxes iou_threshold),
          map ((!) boxes) (nms_order boxes scores max_boxes iou_threshold),
          map ((!) classes) (nms_order boxes scores max_boxes iou_threshold))"
proof -
  let ?idx = "nms_order boxes scores max_boxes iou_threshold"
  have nms: "non_max_suppression boxes scores max_boxes iou_threshold = Inr ?idx"
    using assms by (simp add: non_max_suppression_Inr_iff)
  have r: "\<forall>i \<in> set ?idx. i < length scores"
    using nms_order_range [of boxes scores max_boxes iou_threshold] by auto
  have g1: "gather scores ?idx = Inr (map ((!) scores) ?idx)"
    by (rule gather_in_range [OF r])
  have g2: "gather boxes ?idx = Inr (map ((!) boxes) ?idx)"
    by (rule gather_in_range) (use r assms(4) in simp)
  have g3: "gather classes ?idx = Inr (map ((!) classes) ?idx)"
    by (rule gather_in_range) (use r assms(4,5) in simp)
  show ?thesis
    unfolding yolo_non_max_suppression_def by (simp only: nms g1 g2 g3 sum.case)
qed

lemma example_nms_order:
  "nms_order [[0, 0, 720, 1280], [72, 0, 792, 1280], [1440, 2560, 2880, 5120]]
      [18 / 25, 3 / 5, 7 / 10::real] 10 (1 / 2) = [0, 2]"
  by code_simp

lemma example_yolo_eval_one:
  "yolo_eval scale_boxes example_outputs [720, 1280] 1 (3 / 10) (1 / 2) =
     Inr ([18 / 25], [[0, 0, 720, 1280]], [0])"
  by code_simp

lemma example_nms_one:
  "yolo_non_max_suppression [18 / 25, 3 / 5, 7 / 10::real]
      [[0, 0, 720, 1280], [72, 0, 792, 1280], [1440, 2560, 2880, 5120]] [0, 0, 1] 1 (1 / 2)
     = Inr ([18 / 25], [[0, 0, 720, 1280]], [0])"
  by code_simp

lemma scale_boxes_rows:
  assumes "list_all (\<lambda>r. length r = 4) bs"
  shows "scale_boxes bs [height, width] =
           Inr (map (\<lambda>r. map2 (*) r [height, width, height, width]) bs)"
proof -
  have "list_all2 (\<lambda>r s. length r = length s) bs (map (\<lambda>_. [height, width, height, width]) bs)"
    using assms by (simp add: list_all2_conv_all_nth list_all_length)
  from broadcast_op_same_width [OF _ this, of "(*)"]
  have "broadcast_op (*) bs (map (\<lambda>_. [height, width, height, width]) bs)
      = Inr (map2 (map2 (*)) bs (map (\<lambda>_. [height, width, height, width]) bs))"
    by simp
  also have "map2 (map2 (*)) bs (map (\<lambda>_. [height, width, height, width]) bs)
      = map (\<lambda>r. map2 (*) r [height, width, height, width]) bs"
    by (induction bs) simp_all
  finally show ?thesis by (simp add: scale_boxes_def)
qed

lemma scale_boxes_keeps_shape:
  assumes "list_all (\<lambda>r. length r = 4) bs"
  shows "\<exists>bs'. scale_boxes bs [height, width] = Inr bs' \<and> length bs' = length bs
           \<and> list_all (\<lambda>r. length r = 4) bs'"
  using assms by (simp add: scale_boxes_rows list_all_iff)

lemma corners_rows_of_four:
  "list_all (\<lambda>r. length r = 4) (map2 corners_of box_xy box_wh)"
  by (simp add: list_all_iff corners_of_def case_prod_beta)

lemma kept_cells_boxes:
  assumes "list_all (\<lambda>r. length r = 4) boxes"
  shows "list_all (\<lambda>r. length r = 4) (map fst (kept_cells t boxes conf probs))"
proof -
  have "\<forall>cell \<in> set (kept_cells t boxes conf probs). fst cell \<in> set boxes"
    unfolding kept_cells_def grid_cells_def
    by (metis filter_is_subset prod.collapse set_zip_leftD subsetD)
  with assms show ?thesis by (simp add: list_all_iff)
qed

lemma yolo_eval_Inr_shape:
  assumes "yolo_eval scale yolo_outputs image_shape max_boxes score_threshold iou_threshold
             = Inr (scores, boxes, classes)"
  shows "length scores = length boxes \<and> length classes = length boxes
       \<and> list_all (\<lambda>r. length r = 4) boxes"
proof -
  from assms obtain ss bs cs where
    nms: "yolo_non_max_suppression ss bs cs max_boxes iou_threshold = Inr (scores, boxes, classes)"
    unfolding yolo_eval_def by (auto split: sum.splits prod.splits)
  let ?idx = "nms_order bs ss max_boxes iou_threshold"
  note d = yolo_non_max_suppression_Inr_D [OF nms]
  have "\<forall>i \<in> set ?idx. bs ! i \<in> set bs"
    using nms_order_range [of bs ss max_boxes iou_threshold] d(4) by auto
  then have "set boxes \<subseteq> set bs" by (auto simp: d(7))
  with d(3) have "list_all (\<lambda>r. length r = 4) boxes" by (auto simp: list_all_iff)
  then show ?thesis by (simp add: d(6,7,8))
qed

lemma yolo_eval_total:
  assumes len: "length box_xy = n" "length box_wh = n" "length box_confidence = n"
      "length box_class_probs = n"
    and xy: "list_all (\<lambda>r. length r = 2) box_xy"
    and wh: "list_all (\<lambda>r. length r = 2) box_wh"
    and conf: "list_all (\<lambda>r. length r = 1) box_confidence"
    and probs: "list_all (\<lambda>r. r \<noteq> []) box_class_probs"
    and scale: "\<forall>bs. list_all (\<lambda>r. length r = 4) bs \<longrightarrow>
        (\<exists>bs'. scale bs image_shape = Inr bs' \<and> length bs' = length bs
           \<and> list_all (\<lambda>r. length r = 4) bs')"
    and mb: "0 \<le> max_boxes" and thr: "0 \<le> iou_threshold" "iou_threshold \<le> 1"
  shows "\<exists>scores boxes classes.
     yolo_eval scale (box_xy, box_wh, box_confidence, box_class_probs) image_shape
       max_boxes score_threshold iou_threshold = Inr (scores, boxes, classes)"
proof -
  let ?corners = "map2 corners_of box_xy box_wh"
  let ?kept = "kept_cells iou_threshold ?corners box_confidence box_class_probs"
  have c: "yolo_boxes_to_corners box_xy box_wh = Inr ?corners"
    using yolo_boxes_to_corners_eq [OF _ xy wh] len by simp
  have lc: "length ?corners = length box_class_probs" using len by simp
  have lf: "length box_confidence = length box_class_probs" using len by simp
  have f: "yolo_filter_boxes ?corners box_confidence box_class_probs iou_threshold
      = Inr (map cell_score ?kept, map fst ?kept, map cell_class ?kept)"
    unfolding kept_cells_def by (rule yolo_filter_boxes_cells [OF lc lf conf probs])
  have four: "list_all (\<lambda>r. length r = 4) (map fst ?kept)"
    by (rule kept_cells_boxes [OF corners_rows_of_four])
  from scale four obtain bs' where
    s: "scale (map fst ?kept) image_shape = Inr bs'"
    and ls: "length bs' = length (map fst ?kept)"
    and fs: "list_all (\<lambda>r. length r = 4) bs'" by blast
  have "yolo_non_max_suppression (map cell_score ?kept) bs' (map cell_class ?kept)
          max_boxes iou_threshold
      = Inr (map ((!) (map cell_score ?kept))
               (nms_order bs' (map cell_score ?kept) max_boxes iou_threshold),
             map ((!) bs') (nms_order bs' (map cell_score ?kept) max_boxes iou_threshold),
             map ((!) (map cell_class ?kept))
               (nms_order bs' (map cell_score ?kept) max_boxes iou_threshold))"
    by (rule yolo_non_max_suppression_total [OF thr fs _ _ mb]) (simp_all add: ls)
  then show ?thesis
    unfolding yolo_eval_def by (simp add: c f s)
qed

lemma example_yolo_eval:
  "yolo_eval scale_boxes example_outputs [720, 1280] 10 (3 / 10) (1 / 2) =
     Inr ([18 / 25, 7 / 10], [[0, 0, 720, 1280], [1440, 2560, 2880, 5120]], [0, 1])"
  by code_simp

lemma yolo_eval_Inl_iff:
  "(yolo_eval scale (box_xy, box_wh, box_confidence, box_class_probs)
       image_shape max_boxes score_threshold iou_threshold = Inl e
    \<longleftrightarrow>
      yolo_boxes_to_corners box_xy box_wh = Inl e
      \<or> (\<exists>corners. yolo_boxes_to_corners box_xy box_wh = Inr corners
          \<and> (yolo_filter_boxes corners box_confidence box_class_probs iou_threshold = Inl e
             \<or> (\<exists>scores boxes classes.
                   yolo_filter_boxes corners box_confidence box_class_probs iou_threshold
                     = Inr (scores, boxes, classes)
                   \<and> (scale boxes image_shape = Inl e
                      \<or> (\<exists>scaled. scale boxes image_shape = Inr scaled
                          \<and> yolo_non_max_suppression scores scaled classes max_boxes iou_threshold
                              = Inl e))))))"
  unfolding yolo_eval_def
  by (simp split: sum.splits prod.splits) blast?

lemma yolo_boxes_to_corners_Inl_iff:
  "(yolo_boxes_to_corners box_xy box_wh = Inl e
    \<longleftrightarrow>
      broadcast_op (-) box_xy (div_scalar box_wh 2) = Inl e
      \<or> (\<exists>box_mins. broadcast_op (-) box_xy (div_scalar box_wh 2) = Inr box_mins
          \<and> (broadcast_op (+) box_xy (div_scalar box_wh 2) = Inl e
             \<or> (\<exists>box_maxes. broadcast_op (+) box_xy (div_scalar box_wh 2) = Inr box_maxes
                 \<and> concatenate [slice_last 1 2 box_mins, slice_last 0 1 box_mins,
                       slice_last 1 2 box_maxes, slice_last 0 1 box_maxes] = Inl e))))"
  unfolding yolo_boxes_to_corners_def
  by (simp split: sum.splits prod.splits) blast?

lemma yolo_filter_boxes_Inl_iff:
  "(yolo_filter_boxes boxes box_confidence box_class_probs threshold = Inl e
    \<longleftrightarrow>
      broadcast_op (*) box_confidence box_class_probs = Inl e
      \<or> (\<exists>box_scores. broadcast_op (*) box_confidence box_class_probs = Inr box_scores
          \<and> (argmax_last box_scores = Inl e
             \<or> (\<exists>box_classes. argmax_last box_scores = Inr box_classes
                 \<and> (reduce_max_last box_scores = Inl e
                    \<or> (\<exists>box_class_scores. reduce_max_last box_scores = Inr box_class_scores
                        \<and> (boolean_mask box_class_scores
                               (map (\<lambda>s. s \<ge> threshold) box_class_scores) = Inl e
                           \<or> (\<exists>scores. boolean_mask box_class_scores
                                 (map (\<lambda>s. s \<ge> threshold) box_class_scores) = Inr scores
                               \<and> (boolean_mask boxes
                                     (map (\<lambda>s. s \<ge> threshold) box_class_scores) = Inl e
                                  \<or> (\<exists>boxes'. boolean_mask boxes
                                        (map (\<lambda>s. s \<ge> threshold) box_class_scores) = Inr boxes'
                                      \<and> boolean_mask box_classes
                                          (map (\<lambda>s. s \<ge> threshold) box_class_scores)
                                            = Inl e))))))))))"
  unfolding yolo_filter_boxes_def Let_def
  by (simp split: sum.splits prod.splits) blast?

lemma yolo_non_max_suppression_Inl_iff:
  "(yolo_non_max_suppression scores boxes classes max_boxes iou_threshold = Inl e
    \<longleftrightarrow>
      non_max_suppression boxes scores max_boxes iou_threshold = Inl e
      \<or> (\<exists>nms_indices. non_max_suppression boxes scores max_boxes iou_threshold = Inr nms_indices
          \<and> (gather scores nms_indices = Inl e
             \<or> (\<exists>scores'. gather scores nms_indices = Inr scores'
                 \<and> (gather boxes nms_indices = Inl e
                    \<or> (\<exists>boxes'. gather boxes nms_indices = Inr boxes'
                        \<and> gather classes nms_indices = Inl e))))))"
  unfolding yolo_non_max_suppression_def
  by (simp split: sum.splits prod.splits) blast?

section \<open>The order of the stages\<close>

text \<open>
  Claim C1. For every tuple of four tensors, \<^verbatim>\<open>yolo_eval\<close> decodes the centers and sizes
  to corners, then filters the boxes by a threshold, then rescales the boxes that are left
  to the image shape, then applies non-max suppression, and its result is the result of
  that composition of four stages. The threshold that reaches the filter is
  \<open>iou_threshold\<close>.
\<close>

theorem yolo_eval_is_decode_filter_rescale_suppress:
  "yolo_eval scale (box_xy, box_wh, box_confidence, box_class_probs)
       image_shape max_boxes score_threshold iou_threshold =
   decode_filter_rescale_suppress scale box_xy box_wh box_confidence box_class_probs
       image_shape max_boxes iou_threshold iou_threshold"
  by (simp add: yolo_eval_def decode_filter_rescale_suppress_def and_then_def
      split: sum.splits prod.splits)

section \<open>Determinism and the module state\<close>



section \<open>Errors\<close>

text \<open>
  Claim C8. The detector handles no error. \<^verbatim>\<open>yolo_eval\<close> raises \<open>e\<close> exactly when one of
  its four stages, run in order on the values of the stages before it, raises \<open>e\<close>; each
  helper raises \<open>e\<close> exactly when one of the library operations it calls, in order,
  raises \<open>e\<close>. So an error of the numeric layer comes out unchanged: no stage runs after
  it, no default stands in for it and no partial result is returned.
\<close>

theorem yolo_eval_propagates_errors:
  "(yolo_eval scale (box_xy, box_wh, box_confidence, box_class_probs)
       image_shape max_boxes score_threshold iou_threshold = Inl e
    \<longleftrightarrow>
      yolo_boxes_to_corners box_xy box_wh = Inl e
      \<or> (\<exists>corners. yolo_boxes_to_corners box_xy box_wh = Inr corners
          \<and> (yolo_filter_boxes corners box_confidence box_class_probs iou_threshold = Inl e
             \<or> (\<exists>scores boxes classes.
                   yolo_filter_boxes corners box_confidence box_class_probs iou_threshold
                     = Inr (scores, boxes, classes)
                   \<and> (scale boxes image_shape = Inl e
                      \<or> (\<exists>scaled. scale boxes image_shape = Inr scaled
                          \<and> yolo_non_max_suppression scores scaled classes max_boxes iou_threshold
                              = Inl e))))))
   \<and> (yolo_boxes_to_corners box_xy box_wh = Inl e
    \<longleftrightarrow>
      broadcast_op (-) box_xy (div_scalar box_wh 2) = Inl e
      \<or> (\<exists>box_mins. broadcast_op (-) box_xy (div_scalar box_wh 2) = Inr box_mins
          \<and> (broadcast_op (+) box_xy (div_scalar box_wh 2) = Inl e
             \<or> (\<exists>box_maxes. broadcast_op (+) box_xy (div_scalar box_wh 2) = Inr box_maxes
                 \<and> concatenate [slice_last 1 2 box_mins, slice_last 0 1 box_mins,
                       slice_last 1 2 box_maxes, slice_last 0 1 box_maxes] = Inl e))))
   \<and> (yolo_filter_boxes boxes box_confidence box_class_probs threshold = Inl e
    \<longleftrightarrow>
      broadcast_op (*) box_confidence box_class_probs = Inl e
      \<or> (\<exists>box_scores. broadcast_op (*) box_confidence box_class_probs = Inr box_scores
          \<and> (argmax_last box_scores = Inl e
             \<or> (\<exists>box_classes. argmax_last box_scores = Inr box_classes
                 \<and> (reduce_max_last box_scores = Inl e
                    \<or> (\<exists>box_class_scores. reduce_max_last box_scores = Inr box_class_scores
                        \<and> (boolean_mask box_class_scores
                               (map (\<lambda>s. s \<ge> threshold) box_class_scores) = Inl e
                           \<or> (\<exists>scores. boolean_mask box_class_scores
                                 (map (\<lambda>s. s \<ge> threshold) box_class_scores) = Inr scores
                               \<and> (boolean_mask boxes
                                     (map (\<lambda>s. s \<ge> threshold) box_class_scores) = Inl e
                                  \<or> (\<exists>boxes'. boolean_mask boxes
                                        (map (\<lambda>s. s \<ge> threshold) box_class_scores) = Inr boxes'
                                      \<and> boolean_mask box_classes
                                          (map (\<lambda>s. s \<ge> threshold) box_class_scores)
                                            = Inl e))))))))))
   \<and> (yolo_non_max_suppression scores boxes classes max_boxes iou_threshold = Inl e
    \<longleftrightarrow>
      non_max_suppression boxes scores max_boxes iou_threshold = Inl e
      \<or> (\<exists>nms_indices. non_max_suppression boxes scores max_boxes iou_threshold = Inr nms_indices
          \<and> (gather scores nms_indices = Inl e
             \<or> (\<exists>scores'. gather scores nms_indices = Inr scores'
                 \<and> (gather boxes nms_indices = Inl e
                    \<or> (\<exists>boxes'. gather boxes nms_indices = Inr boxes'
                        \<and> gather classes nms_indices = Inl e))))))"
  by (intro conjI yolo_eval_Inl_iff yolo_boxes_to_corners_Inl_iff yolo_filter_boxes_Inl_iff
      yolo_non_max_suppression_Inl_iff)

theorem yolo_eval_propagates_errors_witness:
  "broadcast_op (-) [[1, 2], [3, 4]] (div_scalar [[1, 1, 1], [1, 1, 1]] (2::real))
     = Inl incompatible_shapes
   \<and> yolo_boxes_to_corners [[1, 2], [3, 4]] [[1, 1, 1], [1, 1, 1::real]] = Inl incompatible_shapes
   \<and> yolo_eval scale_boxes ([[1, 2], [3, 4]], [[1, 1, 1], [1, 1, 1::real]], [[1], [1]], [[1], [1]])
        [720, 1280] 10 (3 / 10) (1 / 2) = Inl incompatible_shapes"
proof -
  have raised: "broadcast_op (-) [[1, 2], [3, 4]] (div_scalar [[1, 1, 1], [1, 1, 1]] (2::real))
      = Inl incompatible_shapes"
    by (simp add: broadcast_op_def broadcast_row_def div_scalar_def)
  note propagation = yolo_eval_propagates_errors [where e = "incompatible_shapes"
      and box_xy = "[[1, 2], [3, 4::real]]" and box_wh = "[[1, 1, 1], [1, 1, 1]]"
      and box_confidence = "[[1], [1]]" and box_class_probs = "[[1], [1]]"
      and scale = "scale_boxes" and image_shape = "[720, 1280]" and max_boxes = "10"
      and score_threshold = "3 / 10" and iou_threshold = "1 / 2"]
  from propagation raised have corners:
    "yolo_boxes_to_corners [[1, 2], [3, 4]] [[1, 1, 1], [1, 1, 1::real]] = Inl incompatible_shapes"
    by blast
  with propagation have
    "yolo_eval scale_boxes ([[1, 2], [3, 4]], [[1, 1, 1], [1, 1, 1::real]], [[1], [1]], [[1], [1]])
        [720, 1280] 10 (3 / 10) (1 / 2) = Inl incompatible_shapes"
    by blast
  with raised corners show ?thesis by simp
qed

section \<open>The score threshold\<close>

text \<open>
  Claim C9. \<^verbatim>\<open>yolo_eval\<close> ignores its \<open>score_threshold\<close>: any two values of it give the
  same result, because \<^verbatim>\<open>yolo_filter_boxes\<close> is called with \<open>iou_threshold\<close> as its
  threshold. The call in \<^verbatim>\<open>predict\<close> passes \<open>0.3\<close> and \<open>0.5\<close>: the \<open>0.3\<close> has no effect
  and the boxes are filtered at \<open>0.5\<close>.
\<close>

theorem yolo_eval_ignores_score_threshold:
  "yolo_eval scale yolo_outputs image_shape max_boxes score_threshold iou_threshold =
     yolo_eval scale yolo_outputs image_shape max_boxes score_threshold' iou_threshold
   \<and> yolo_eval scale (box_xy, box_wh, box_confidence, box_class_probs)
        image_shape max_boxes score_threshold iou_threshold =
     and_then (yolo_boxes_to_corners box_xy box_wh) (\<lambda>corners.
     and_then (yolo_filter_boxes corners box_confidence box_class_probs iou_threshold) (\<lambda>kept.
     and_then (scale (fst (snd kept)) image_shape) (\<lambda>scaled.
       yolo_non_max_suppression (fst kept) scaled (snd (snd kept)) max_boxes iou_threshold)))
   \<and> predict_yolo_eval scale (box_xy, box_wh, box_confidence, box_class_probs) image_size =
     and_then (yolo_boxes_to_corners box_xy box_wh) (\<lambda>corners.
     and_then (yolo_filter_boxes corners box_confidence box_class_probs (1 / 2)) (\<lambda>kept.
     and_then (scale (fst (snd kept)) [snd image_size, fst image_size]) (\<lambda>scaled.
       yolo_non_max_suppression (fst kept) scaled (snd (snd kept)) 10 (1 / 2))))
   \<and> predict_yolo_eval scale yolo_outputs image_size =
     yolo_eval scale yolo_outputs [snd image_size, fst image_size] 10 score_threshold (1 / 2)"
  by (simp add: yolo_eval_def predict_yolo_eval_def and_then_def
      split: sum.splits prod.splits)

section \<open>Corner conversion\<close>

text \<open>
  Claim C5. For centers \<^verbatim>\<open>box_xy\<close> and sizes \<^verbatim>\<open>box_wh\<close> of a common leading shape, each of
  them a pair, \<^verbatim>\<open>yolo_boxes_to_corners\<close> returns for every box the row
  \<open>y_min, x_min, y_max, x_max\<close>, where the minimum corner is the center minus half the size
  and the maximum corner is the center plus half the size.
\<close>

theorem yolo_boxes_to_corners_rows:
  assumes "length box_xy = length box_wh"
    and "list_all (\<lambda>r. length r = 2) box_xy"
    and "list_all (\<lambda>r. length r = 2) box_wh"
  shows "yolo_boxes_to_corners box_xy box_wh = Inr (map2 corners_of box_xy box_wh)"
  using assms by (rule yolo_boxes_to_corners_eq)

theorem yolo_boxes_to_corners_rows_witness:
  "length [[1 / 2, 1 / 2], [3, 3::real]] = length [[1, 1], [2, 2::real]]
   \<and> list_all (\<lambda>r. length r = 2) [[1 / 2, 1 / 2], [3, 3::real]]
   \<and> list_all (\<lambda>r. length r = 2) [[1, 1], [2, 2::real]]
   \<and> yolo_boxes_to_corners [[1 / 2, 1 / 2], [3, 3::real]] [[1, 1], [2, 2]]
       = Inr [[0, 0, 1, 1], [2, 2, 4, 4]]"
  using yolo_boxes_to_corners_rows [of "[[1 / 2, 1 / 2], [3, 3::real]]" "[[1, 1], [2, 2]]"]
  by (simp add: corners_of_def)

section \<open>Filtering by the class score\<close>

text \<open>
  Claim C2. For boxes, confidences and class probabilities of a common leading shape, one
  confidence and at least one class for each box, \<^verbatim>\<open>yolo_filter_boxes\<close> keeps, in grid
  order, exactly the boxes whose largest product of confidence and class probability is
  at least the threshold, and drops the boxes for which it is below. For a kept box it
  returns that largest product as the score and its index, the first one where it
  stands, as the class.
\<close>

theorem yolo_filter_boxes_keeps_best:
  assumes "length boxes = length box_class_probs"
    and "length box_confidence = length box_class_probs"
    and "list_all (\<lambda>r. length r = 1) box_confidence"
    and "list_all (\<lambda>r. r \<noteq> []) box_class_probs"
  shows "yolo_filter_boxes boxes box_confidence box_class_probs threshold =
           Inr (map cell_score (kept_cells threshold boxes box_confidence box_class_probs),
                map fst (kept_cells threshold boxes box_confidence box_class_probs),
                map cell_class (kept_cells threshold boxes box_confidence box_class_probs))
       \<and> (\<forall>cell \<in> set (grid_cells boxes box_confidence box_class_probs).
             (cell \<in> set (kept_cells threshold boxes box_confidence box_class_probs)
                \<longleftrightarrow> threshold \<le> cell_score cell)
           \<and> (cell \<notin> set (kept_cells threshold boxes box_confidence box_class_probs)
                \<longleftrightarrow> cell_score cell < threshold)
           \<and> cell_class cell < length (snd (snd cell))
           \<and> hd (fst (snd cell)) * snd (snd cell) ! cell_class cell = cell_score cell
           \<and> (\<forall>j < length (snd (snd cell)).
                 hd (fst (snd cell)) * snd (snd cell) ! j \<le> cell_score cell)
           \<and> (\<forall>j < cell_class cell.
                 hd (fst (snd cell)) * snd (snd cell) ! j < cell_score cell))"
proof (intro conjI ballI)
  show "yolo_filter_boxes boxes box_confidence box_class_probs threshold =
           Inr (map cell_score (kept_cells threshold boxes box_confidence box_class_probs),
                map fst (kept_cells threshold boxes box_confidence box_class_probs),
                map cell_class (kept_cells threshold boxes box_confidence box_class_probs))"
    unfolding kept_cells_def by (rule yolo_filter_boxes_cells [OF assms])
next
  fix cell
  assume cell: "cell \<in> set (grid_cells boxes box_confidence box_class_probs)"
  then have "snd (snd cell) \<in> set box_class_probs"
    unfolding grid_cells_def by (metis prod.collapse set_zip_rightD)
  with assms(4) have ne: "snd (snd cell) \<noteq> []" by (simp add: list_all_iff)
  show "cell \<in> set (kept_cells threshold boxes box_confidence box_class_probs)
          \<longleftrightarrow> threshold \<le> cell_score cell"
    using cell by (simp add: kept_cells_def)
  show "cell \<notin> set (kept_cells threshold boxes box_confidence box_class_probs)
          \<longleftrightarrow> cell_score cell < threshold"
    using cell by (auto simp: kept_cells_def)
  show "cell_class cell < length (snd (snd cell))"
    by (rule cell_class_argmax(1) [OF ne])
  show "hd (fst (snd cell)) * snd (snd cell) ! cell_class cell = cell_score cell"
    by (rule cell_class_argmax(2) [OF ne])
  show "\<forall>j < length (snd (snd cell)). hd (fst (snd cell)) * snd (snd cell) ! j \<le> cell_score cell"
    by (rule cell_class_argmax(3) [OF ne])
  show "\<forall>j < cell_class cell. hd (fst (snd cell)) * snd (snd cell) ! j < cell_score cell"
    by (rule cell_class_argmax(4) [OF ne])
qed

theorem yolo_filter_boxes_keeps_best_witness:
  "length [[0, 0, 1, 1], [1 / 10, 0, 11 / 10, 1], [2, 2, 4, 4], [9 / 2, 9 / 2, 11 / 2, 11 / 2::real]]
     = length [[4 / 5, 1 / 10], [3 / 5, 3 / 10], [1 / 5, 7 / 10], [2 / 5, 2 / 5::real]]
   \<and> length [[9 / 10], [1], [1], [1 / 2::real]]
     = length [[4 / 5, 1 / 10], [3 / 5, 3 / 10], [1 / 5, 7 / 10], [2 / 5, 2 / 5::real]]
   \<and> list_all (\<lambda>r. length r = 1) [[9 / 10], [1], [1], [1 / 2::real]]
   \<and> list_all (\<lambda>r. r \<noteq> []) [[4 / 5, 1 / 10], [3 / 5, 3 / 10], [1 / 5, 7 / 10], [2 / 5, 2 / 5::real]]
   \<and> yolo_filter_boxes
        [[0, 0, 1, 1], [1 / 10, 0, 11 / 10, 1], [2, 2, 4, 4], [9 / 2, 9 / 2, 11 / 2, 11 / 2::real]]
        [[9 / 10], [1], [1], [1 / 2]]
        [[4 / 5, 1 / 10], [3 / 5, 3 / 10], [1 / 5, 7 / 10], [2 / 5, 2 / 5]] (1 / 2)
      = Inr ([18 / 25, 3 / 5, 7 / 10],
             [[0, 0, 1, 1], [1 / 10, 0, 11 / 10, 1], [2, 2, 4, 4]], [0, 0, 1])"
proof -
  let ?boxes = "[[0, 0, 1, 1], [1 / 10, 0, 11 / 10, 1], [2, 2, 4, 4],
                 [9 / 2, 9 / 2, 11 / 2, 11 / 2::real]]"
  let ?conf = "[[9 / 10], [1], [1], [1 / 2::real]]"
  let ?probs = "[[4 / 5, 1 / 10], [3 / 5, 3 / 10], [1 / 5, 7 / 10], [2 / 5, 2 / 5::real]]"
  have shape: "length ?boxes = length ?probs" "length ?conf = length ?probs"
    "list_all (\<lambda>r. length r = 1) ?conf" "list_all (\<lambda>r. r \<noteq> []) ?probs"
    by simp_all
  have kept: "(map cell_score (kept_cells (1 / 2) ?boxes ?conf ?probs),
               map fst (kept_cells (1 / 2) ?boxes ?conf ?probs),
               map cell_class (kept_cells (1 / 2) ?boxes ?conf ?probs))
      = ([18 / 25, 3 / 5, 7 / 10],
         [[0, 0, 1, 1], [1 / 10, 0, 11 / 10, 1], [2, 2, 4, 4]], [0, 0, 1])"
    by code_simp
  from yolo_filter_boxes_keeps_best [OF shape, of "1 / 2"]
  have "yolo_filter_boxes ?boxes ?conf ?probs (1 / 2)
      = Inr (map cell_score (kept_cells (1 / 2) ?boxes ?conf ?probs),
             map fst (kept_cells (1 / 2) ?boxes ?conf ?probs),
             map cell_class (kept_cells (1 / 2) ?boxes ?conf ?probs))"
    by (rule conjunct1)
  with kept shape show ?thesis by (simp only: simp_thms)
qed

section \<open>Non-max suppression\<close>

text \<open>
  Claim C3. \<^verbatim>\<open>yolo_non_max_suppression\<close> performs greedy suppression by overlap. On
  scores, boxes and classes of the documented shapes it returns the scores, boxes and
  classes at the selected indices. Whenever it returns, each of the three results is
  its input gathered at the same selected indices, so every returned triple is an input
  triple; the selected indices are distinct and in range, run by descending score, none of
  them overlaps an earlier one by more than \<open>iou_threshold\<close>, there are at most
  \<open>max_boxes\<close> of them, and an index that is not selected either overlaps a selected
  box of at least its score by more than the threshold or was cut off because
  \<open>max_boxes\<close> boxes were selected.
\<close>

theorem yolo_non_max_suppression_greedy:
  "(0 \<le> iou_threshold \<and> iou_threshold \<le> 1 \<and> list_all (\<lambda>r. length r = 4) boxes
      \<and> length scores = length boxes \<and> length classes = length boxes \<and> 0 \<le> max_boxes
    \<longrightarrow> yolo_non_max_suppression scores boxes classes max_boxes iou_threshold =
          Inr (map ((!) scores) (nms_order boxes scores max_boxes iou_threshold),
               map ((!) boxes) (nms_order boxes scores max_boxes iou_threshold),
               map ((!) classes) (nms_order boxes scores max_boxes iou_threshold)))
   \<and> (yolo_non_max_suppression scores boxes classes max_boxes iou_threshold
        = Inr (scores', boxes', classes')
    \<longrightarrow> scores' = map ((!) scores) (nms_order boxes scores max_boxes iou_threshold)
      \<and> boxes' = map ((!) boxes) (nms_order boxes scores max_boxes iou_threshold)
      \<and> classes' = map ((!) classes) (nms_order boxes scores max_boxes iou_threshold)
      \<and> distinct (nms_order boxes scores max_boxes iou_threshold)
      \<and> (\<forall>i \<in> set (nms_order boxes scores max_boxes iou_threshold).
            i < length scores \<and> i < length boxes \<and> i < length classes)
      \<and> sorted_wrt (\<lambda>i j. scores ! j \<le> scores ! i)
            (nms_order boxes scores max_boxes iou_threshold)
      \<and> sorted_wrt (\<lambda>s c. \<not> iou_threshold < iou boxes c s)
            (nms_order boxes scores max_boxes iou_threshold)
      \<and> int (length (nms_order boxes scores max_boxes iou_threshold)) \<le> max_boxes
      \<and> (\<forall>c < length scores. c \<notin> set (nms_order boxes scores max_boxes iou_threshold) \<longrightarrow>
            int (length (nms_order boxes scores max_boxes iou_threshold)) = max_boxes
            \<or> (\<exists>s \<in> set (nms_order boxes scores max_boxes iou_threshold).
                  iou_threshold < iou boxes c s \<and> scores ! c \<le> scores ! s)))"
proof (intro conjI impI)
  assume "0 \<le> iou_threshold \<and> iou_threshold \<le> 1 \<and> list_all (\<lambda>r. length r = 4) boxes
      \<and> length scores = length boxes \<and> length classes = length boxes \<and> 0 \<le> max_boxes"
  then show "yolo_non_max_suppression scores boxes classes max_boxes iou_threshold =
          Inr (map ((!) scores) (nms_order boxes scores max_boxes iou_threshold),
               map ((!) boxes) (nms_order boxes scores max_boxes iou_threshold),
               map ((!) classes) (nms_order boxes scores max_boxes iou_threshold))"
    by (intro yolo_non_max_suppression_total) simp_all
next
  let ?idx = "nms_order boxes scores max_boxes iou_threshold"
  assume ok: "yolo_non_max_suppression scores boxes classes max_boxes iou_threshold
        = Inr (scores', boxes', classes')"
  note d = yolo_non_max_suppression_Inr_D [OF ok]
  show "scores' = map ((!) scores) ?idx" by (fact d(6))
  show "boxes' = map ((!) boxes) ?idx" by (fact d(7))
  show "classes' = map ((!) classes) ?idx" by (fact d(8))
  show "distinct ?idx" by (rule nms_order_distinct)
  show "\<forall>i \<in> set ?idx. i < length scores \<and> i < length boxes \<and> i < length classes"
    using nms_order_range [of boxes scores max_boxes iou_threshold] d(4) d(9) by auto
  show "sorted_wrt (\<lambda>i j. scores ! j \<le> scores ! i) ?idx" by (rule nms_order_descending)
  show "sorted_wrt (\<lambda>s c. \<not> iou_threshold < iou boxes c s) ?idx" by (rule nms_order_no_overlap)
  show "int (length ?idx) \<le> max_boxes"
    using nms_order_length [of boxes scores max_boxes iou_threshold] d(5) by simp
  show "\<forall>c < length scores. c \<notin> set ?idx \<longrightarrow>
            int (length ?idx) = max_boxes
            \<or> (\<exists>s \<in> set ?idx. iou_threshold < iou boxes c s \<and> scores ! c \<le> scores ! s)"
  proof (intro allI impI)
    fix c assume "c < length scores" "c \<notin> set ?idx"
    from nms_order_complete [OF this] d(5)
    show "int (length ?idx) = max_boxes
            \<or> (\<exists>s \<in> set ?idx. iou_threshold < iou boxes c s \<and> scores ! c \<le> scores ! s)"
      by auto
  qed
qed

theorem yolo_non_max_suppression_greedy_witness:
  "yolo_non_max_suppression [18 / 25, 3 / 5, 7 / 10::real]
      [[0, 0, 720, 1280], [72, 0, 792, 1280], [1440, 2560, 2880, 5120]] [0, 0, 1] 10 (1 / 2)
     = Inr ([18 / 25, 7 / 10], [[0, 0, 720, 1280], [1440, 2560, 2880, 5120]], [0, 1])
   \<and> nms_order [[0, 0, 720, 1280], [72, 0, 792, 1280], [1440, 2560, 2880, 5120]]
        [18 / 25, 3 / 5, 7 / 10::real] 10 (1 / 2) = [0, 2]
   \<and> 1 / 2 < iou [[0, 0, 720, 1280], [72, 0, 792, 1280], [1440, 2560, 2880, 5120::real]] 1 0"
proof -
  let ?scores = "[18 / 25, 3 / 5, 7 / 10::real]"
  let ?boxes = "[[0, 0, 720, 1280], [72, 0, 792, 1280], [1440, 2560, 2880, 5120::real]]"
  let ?classes = "[0, 0, 1::nat]"
  have shape: "0 \<le> (1 / 2::real) \<and> (1 / 2::real) \<le> 1 \<and> list_all (\<lambda>r. length r = 4) ?boxes
      \<and> length ?scores = length ?boxes \<and> length ?classes = length ?boxes \<and> 0 \<le> (10::int)"
    by simp
  from yolo_non_max_suppression_greedy [of "1 / 2" ?boxes ?scores ?classes 10]
  have total: "0 \<le> (1 / 2::real) \<and> (1 / 2::real) \<le> 1 \<and> list_all (\<lambda>r. length r = 4) ?boxes
      \<and> length ?scores = length ?boxes \<and> length ?classes = length ?boxes \<and> 0 \<le> (10::int)
    \<longrightarrow> yolo_non_max_suppression ?scores ?boxes ?classes 10 (1 / 2) =
          Inr (map ((!) ?scores) (nms_order ?boxes ?scores 10 (1 / 2)),
               map ((!) ?boxes) (nms_order ?boxes ?scores 10 (1 / 2)),
               map ((!) ?classes) (nms_order ?boxes ?scores 10 (1 / 2)))"
    by (rule conjunct1)
  from total shape have "yolo_non_max_suppression ?scores ?boxes ?classes 10 (1 / 2) =
          Inr (map ((!) ?scores) (nms_order ?boxes ?scores 10 (1 / 2)),
               map ((!) ?boxes) (nms_order ?boxes ?scores 10 (1 / 2)),
               map ((!) ?classes) (nms_order ?boxes ?scores 10 (1 / 2)))"
    by (rule mp)
  then have res: "yolo_non_max_suppression ?scores ?boxes ?classes 10 (1 / 2)
     = Inr ([18 / 25, 7 / 10], [[0, 0, 720, 1280], [1440, 2560, 2880, 5120]], [0, 1])"
    by (simp add: example_nms_order)
  have over: "1 / 2 < iou ?boxes 1 0" by code_simp
  from res example_nms_order over show ?thesis by (intro conjI)
qed

text \<open>
  Claim C4. The number of detections that \<^verbatim>\<open>yolo_non_max_suppression\<close> and \<^verbatim>\<open>yolo_eval\<close>
  return is at most \<open>max_boxes\<close>.
\<close>

theorem detections_at_most_max_boxes:
  "(yolo_non_max_suppression scores boxes classes max_boxes iou_threshold
        = Inr (scores', boxes', classes')
    \<longrightarrow> int (length scores') \<le> max_boxes \<and> int (length boxes') \<le> max_boxes
      \<and> int (length classes') \<le> max_boxes)
   \<and> (yolo_eval scale yolo_outputs image_shape max_boxes score_threshold iou_threshold
        = Inr (out_scores, out_boxes, out_classes)
    \<longrightarrow> int (length out_scores) \<le> max_boxes \<and> int (length out_boxes) \<le> max_boxes
      \<and> int (length out_classes) \<le> max_boxes)"
proof -
  have nms: "int (length s) \<le> m \<and> int (length b) \<le> m \<and> int (length c) \<le> m"
    if "yolo_non_max_suppression ss bs cs m t = Inr (s, b, c)"
    for ss bs cs m and t :: 'a and s b c
  proof -
    note d = yolo_non_max_suppression_Inr_D [OF that]
    have "int (length (nms_order bs ss m t)) \<le> m"
      using nms_order_length [of bs ss m t] d(5) by simp
    then show ?thesis by (simp add: d(6,7,8))
  qed
  have "int (length out_scores) \<le> max_boxes \<and> int (length out_boxes) \<le> max_boxes
      \<and> int (length out_classes) \<le> max_boxes"
    if "yolo_eval scale yolo_outputs image_shape max_boxes score_threshold iou_threshold
        = Inr (out_scores, out_boxes, out_classes)"
  proof -
    from that obtain ss bs cs where
      "yolo_non_max_suppression ss bs cs max_boxes iou_threshold
         = Inr (out_scores, out_boxes, out_classes)"
      unfolding yolo_eval_def by (auto split: sum.splits prod.splits)
    then show ?thesis by (rule nms)
  qed
  with nms show ?thesis by blast
qed

theorem detections_at_most_max_boxes_witness:
  "yolo_non_max_suppression [18 / 25, 3 / 5, 7 / 10::real]
      [[0, 0, 720, 1280], [72, 0, 792, 1280], [1440, 2560, 2880, 5120]] [0, 0, 1] 1 (1 / 2)
     = Inr ([18 / 25], [[0, 0, 720, 1280]], [0])
   \<and> yolo_eval scale_boxes example_outputs [720, 1280] 1 (3 / 10) (1 / 2) =
     Inr ([18 / 25], [[0, 0, 720, 1280]], [0])
   \<and> int (length [18 / 25::real]) \<le> 1
   \<and> int (length [[0, 0, 720, 1280::real]]) \<le> 1
   \<and> int (length [0::nat]) \<le> 1"
proof -
  note bound = detections_at_most_max_boxes
    [where scores = "[18 / 25, 3 / 5, 7 / 10::real]"
      and boxes = "[[0, 0, 720, 1280], [72, 0, 792, 1280], [1440, 2560, 2880, 5120]]"
      and classes = "[0, 0, 1]" and max_boxes = 1 and iou_threshold = "1 / 2"
      and scores' = "[18 / 25]" and boxes' = "[[0, 0, 720, 1280]]" and classes' = "[0]"
      and scale = scale_boxes and yolo_outputs = example_outputs
      and image_shape = "[720, 1280]" and score_threshold = "3 / 10"
      and out_scores = "[18 / 25]" and out_boxes = "[[0, 0, 720, 1280]]" and out_classes = "[0]"]
  from bound example_nms_one example_yolo_eval_one
  have "int (length [18 / 25::real]) \<le> 1 \<and> int (length [[0, 0, 720, 1280::real]]) \<le> 1
      \<and> int (length [0::nat]) \<le> 1"
    by blast
  with example_nms_one example_yolo_eval_one show ?thesis by (intro conjI) blast+
qed

text \<open>
  Claim C10. \<^verbatim>\<open>yolo_non_max_suppression\<close> keeps the layout of its inputs and transposes
  nothing: the returned scores and classes are vectors as long as the returned boxes, the
  returned boxes are rows of four coordinates, each of them a row of the input, and entry
  \<open>k\<close> of each result is the entry of its input at the \<open>k\<close>-th selected index.
\<close>

theorem yolo_non_max_suppression_keeps_layout:
  assumes "yolo_non_max_suppression scores boxes classes max_boxes iou_threshold
             = Inr (scores', boxes', classes')"
  shows "length scores' = length boxes' \<and> length classes' = length boxes'
       \<and> list_all (\<lambda>r. length r = 4) boxes'
       \<and> set boxes' \<subseteq> set boxes
       \<and> (\<forall>k < length boxes'.
             nms_order boxes scores max_boxes iou_threshold ! k < length boxes
           \<and> scores' ! k = scores ! (nms_order boxes scores max_boxes iou_threshold ! k)
           \<and> boxes' ! k = boxes ! (nms_order boxes scores max_boxes iou_threshold ! k)
           \<and> classes' ! k = classes ! (nms_order boxes scores max_boxes iou_threshold ! k))"
proof -
  let ?idx = "nms_order boxes scores max_boxes iou_threshold"
  note d = yolo_non_max_suppression_Inr_D [OF assms]
  have r: "\<forall>i \<in> set ?idx. i < length boxes"
    using nms_order_range [of boxes scores max_boxes iou_threshold] d(4) by auto
  have rows: "\<forall>i \<in> set ?idx. boxes ! i \<in> set boxes" using r by simp
  have sub: "set boxes' \<subseteq> set boxes" using rows by (auto simp: d(7))
  have four: "list_all (\<lambda>r. length r = 4) boxes'"
    using sub d(3) by (auto simp: list_all_iff)
  have nth: "\<forall>k < length boxes'.
             ?idx ! k < length boxes
           \<and> scores' ! k = scores ! (?idx ! k)
           \<and> boxes' ! k = boxes ! (?idx ! k)
           \<and> classes' ! k = classes ! (?idx ! k)"
    using r by (simp add: d(6,7,8))
  show ?thesis using sub four nth by (simp add: d(6,7,8))
qed

theorem yolo_non_max_suppression_keeps_layout_witness:
  "yolo_non_max_suppression [18 / 25, 3 / 5, 7 / 10::real]
      [[0, 0, 720, 1280], [72, 0, 792, 1280], [1440, 2560, 2880, 5120]] [0, 0, 1] 10 (1 / 2)
     = Inr ([18 / 25, 7 / 10], [[0, 0, 720, 1280], [1440, 2560, 2880, 5120]], [0, 1])
   \<and> length [18 / 25, 7 / 10::real] = length [[0, 0, 720, 1280], [1440, 2560, 2880, 5120::real]]
   \<and> length [0, 1::nat] = length [[0, 0, 720, 1280], [1440, 2560, 2880, 5120::real]]
   \<and> list_all (\<lambda>r. length r = 4) [[0, 0, 720, 1280], [1440, 2560, 2880, 5120::real]]"
proof -
  have res: "yolo_non_max_suppression [18 / 25, 3 / 5, 7 / 10::real]
      [[0, 0, 720, 1280], [72, 0, 792, 1280], [1440, 2560, 2880, 5120]] [0, 0, 1] 10 (1 / 2)
     = Inr ([18 / 25, 7 / 10], [[0, 0, 720, 1280], [1440, 2560, 2880, 5120]], [0, 1])"
    by code_simp
  from yolo_non_max_suppression_keeps_layout [OF res] res show ?thesis by blast
qed

section \<open>The outputs of the detector\<close>

text \<open>
  Claim C6. \<^verbatim>\<open>yolo_eval\<close> returns three parallel outputs: whenever it returns, the scores,
  the boxes and the class indices have the same length and every box is a row of four
  corner coordinates. On four tensors of the documented shapes over one grid, with a
  \<^verbatim>\<open>scale_boxes\<close> that keeps the shape of the boxes, a non-negative \<open>max_boxes\<close> and
  an \<open>iou_threshold\<close> in \<open>[0, 1]\<close>, it does return.
\<close>

theorem yolo_eval_parallel_outputs:
  "(yolo_eval scale yolo_outputs image_shape max_boxes score_threshold iou_threshold
        = Inr (scores, boxes, classes)
    \<longrightarrow> length scores = length boxes \<and> length classes = length boxes
      \<and> list_all (\<lambda>r. length r = 4) boxes)
   \<and> (length box_xy = n \<and> length box_wh = n \<and> length box_confidence = n
      \<and> length box_class_probs = n
      \<and> list_all (\<lambda>r. length r = 2) box_xy \<and> list_all (\<lambda>r. length r = 2) box_wh
      \<and> list_all (\<lambda>r. length r = 1) box_confidence
      \<and> list_all (\<lambda>r. r \<noteq> []) box_class_probs
      \<and> (\<forall>bs. list_all (\<lambda>r. length r = 4) bs \<longrightarrow>
            (\<exists>bs'. scale bs image_shape = Inr bs' \<and> length bs' = length bs
               \<and> list_all (\<lambda>r. length r = 4) bs'))
      \<and> 0 \<le> max_boxes \<and> 0 \<le> iou_threshold \<and> iou_threshold \<le> 1
    \<longrightarrow> (\<exists>out_scores out_boxes out_classes.
          yolo_eval scale (box_xy, box_wh, box_confidence, box_class_probs) image_shape
            max_boxes score_threshold iou_threshold
            = Inr (out_scores, out_boxes, out_classes)
          \<and> length out_scores = length out_boxes \<and> length out_classes = length out_boxes
          \<and> list_all (\<lambda>r. length r = 4) out_boxes))"
proof (rule conjI; rule impI)
  assume "yolo_eval scale yolo_outputs image_shape max_boxes score_threshold iou_threshold
        = Inr (scores, boxes, classes)"
  then show "length scores = length boxes \<and> length classes = length boxes
      \<and> list_all (\<lambda>r. length r = 4) boxes"
    by (rule yolo_eval_Inr_shape)
next
  assume a: "length box_xy = n \<and> length box_wh = n \<and> length box_confidence = n
      \<and> length box_class_probs = n
      \<and> list_all (\<lambda>r. length r = 2) box_xy \<and> list_all (\<lambda>r. length r = 2) box_wh
      \<and> list_all (\<lambda>r. length r = 1) box_confidence
      \<and> list_all (\<lambda>r. r \<noteq> []) box_class_probs
      \<and> (\<forall>bs. list_all (\<lambda>r. length r = 4) bs \<longrightarrow>
            (\<exists>bs'. scale bs image_shape = Inr bs' \<and> length bs' = length bs
               \<and> list_all (\<lambda>r. length r = 4) bs'))
      \<and> 0 \<le> max_boxes \<and> 0 \<le> iou_threshold \<and> iou_threshold \<le> 1"
  from a have l: "length box_xy = n" "length box_wh = n" "length box_confidence = n"
      "length box_class_probs = n"
    and w: "list_all (\<lambda>r. length r = 2) box_xy" "list_all (\<lambda>r. length r = 2) box_wh"
      "list_all (\<lambda>r. length r = 1) box_confidence" "list_all (\<lambda>r. r \<noteq> []) box_class_probs"
    and t: "0 \<le> max_boxes" "0 \<le> iou_threshold" "iou_threshold \<le> 1"
    by simp_all
  from a have sc: "\<forall>bs. list_all (\<lambda>r. length r = 4) bs \<longrightarrow>
            (\<exists>bs'. scale bs image_shape = Inr bs' \<and> length bs' = length bs
               \<and> list_all (\<lambda>r. length r = 4) bs')"
    by (elim conjE)
  have "\<exists>out_scores out_boxes out_classes.
     yolo_eval scale (box_xy, box_wh, box_confidence, box_class_probs) image_shape
       max_boxes score_threshold iou_threshold = Inr (out_scores, out_boxes, out_classes)"
    by (rule yolo_eval_total [where scale = scale and image_shape = image_shape, OF l w sc t])
  then obtain s b c where r: "yolo_eval scale (box_xy, box_wh, box_confidence, box_class_probs)
       image_shape max_boxes score_threshold iou_threshold = Inr (s, b, c)" by blast
  from yolo_eval_Inr_shape [OF r] r
  show "\<exists>out_scores out_boxes out_classes.
          yolo_eval scale (box_xy, box_wh, box_confidence, box_class_probs) image_shape
            max_boxes score_threshold iou_threshold
            = Inr (out_scores, out_boxes, out_classes)
          \<and> length out_scores = length out_boxes \<and> length out_classes = length out_boxes
          \<and> list_all (\<lambda>r. length r = 4) out_boxes"
    by blast
qed

theorem yolo_eval_parallel_outputs_witness:
  "yolo_eval scale_boxes example_outputs [720, 1280] 10 (3 / 10) (1 / 2) =
     Inr ([18 / 25, 7 / 10], [[0, 0, 720, 1280], [1440, 2560, 2880, 5120]], [0, 1])
   \<and> length [18 / 25, 7 / 10::real] = length [[0, 0, 720, 1280], [1440, 2560, 2880, 5120::real]]
   \<and> length [0, 1::nat] = length [[0, 0, 720, 1280], [1440, 2560, 2880, 5120::real]]
   \<and> list_all (\<lambda>r. length r = 4) [[0, 0, 720, 1280], [1440, 2560, 2880, 5120::real]]
   \<and> (\<exists>out_scores out_boxes out_classes.
          yolo_eval scale_boxes
            ([[1 / 2, 1 / 2], [1 / 2, 3 / 5], [3, 3], [5, 5]],
             [[1, 1], [1, 1], [2, 2], [1, 1]],
             [[9 / 10], [1], [1], [1 / 2]],
             [[4 / 5, 1 / 10], [3 / 5, 3 / 10], [1 / 5, 7 / 10], [2 / 5, 2 / 5::real]])
            [720, 1280] 10 (3 / 10) (1 / 2)
            = Inr (out_scores, out_boxes, out_classes)
          \<and> length out_scores = length out_boxes \<and> length out_classes = length out_boxes
          \<and> list_all (\<lambda>r. length r = 4) out_boxes)"
proof -
  let ?xy = "[[1 / 2, 1 / 2], [1 / 2, 3 / 5], [3, 3], [5, 5::real]]"
  let ?wh = "[[1, 1], [1, 1], [2, 2], [1, 1::real]]"
  let ?conf = "[[9 / 10], [1], [1], [1 / 2::real]]"
  let ?probs = "[[4 / 5, 1 / 10], [3 / 5, 3 / 10], [1 / 5, 7 / 10], [2 / 5, 2 / 5::real]]"
  note shape = yolo_eval_parallel_outputs
    [where scale = scale_boxes and yolo_outputs = example_outputs
      and image_shape = "[720, 1280]" and max_boxes = 10 and score_threshold = "3 / 10"
      and iou_threshold = "1 / 2" and scores = "[18 / 25, 7 / 10]"
      and boxes = "[[0, 0, 720, 1280], [1440, 2560, 2880, 5120]]" and classes = "[0, 1]"
      and box_xy = ?xy and box_wh = ?wh and box_confidence = ?conf
      and box_class_probs = ?probs and n = 4]
  have first: "length [18 / 25, 7 / 10::real]
        = length [[0, 0, 720, 1280], [1440, 2560, 2880, 5120::real]]
      \<and> length [0, 1::nat] = length [[0, 0, 720, 1280], [1440, 2560, 2880, 5120::real]]
      \<and> list_all (\<lambda>r. length r = 4) [[0, 0, 720, 1280], [1440, 2560, 2880, 5120::real]]"
    using shape [THEN conjunct1] example_yolo_eval by (rule mp)
  have pre: "length ?xy = 4 \<and> length ?wh = 4 \<and> length ?conf = 4 \<and> length ?probs = 4
      \<and> list_all (\<lambda>r. length r = 2) ?xy \<and> list_all (\<lambda>r. length r = 2) ?wh
      \<and> list_all (\<lambda>r. length r = 1) ?conf \<and> list_all (\<lambda>r. r \<noteq> []) ?probs
      \<and> (\<forall>bs. list_all (\<lambda>r. length r = 4) bs \<longrightarrow>
            (\<exists>bs'. scale_boxes bs [720, 1280::real] = Inr bs' \<and> length bs' = length bs
               \<and> list_all (\<lambda>r. length r = 4) bs'))
      \<and> 0 \<le> (10::int) \<and> 0 \<le> (1 / 2::real) \<and> (1 / 2::real) \<le> 1"
    using scale_boxes_keeps_shape [where height = "720::real" and width = 1280] by simp
  have second: "\<exists>out_scores out_boxes out_classes.
          yolo_eval scale_boxes (?xy, ?wh, ?conf, ?probs) [720, 1280] 10 (3 / 10) (1 / 2)
            = Inr (out_scores, out_boxes, out_classes)
          \<and> length out_scores = length out_boxes \<and> length out_classes = length out_boxes
          \<and> list_all (\<lambda>r. length r = 4) out_boxes"
    using shape [THEN conjunct2] pre by (rule mp)
  from example_yolo_eval first second show ?thesis by (intro conjI) blast+
qed

end
